theory Spec2Isabelle
  imports Main
begin

section \<open>Python values and string helpers\<close>

text \<open>
  The generators work on the dictionaries a YAML loader returns. The scalar values that
  occur in them are modelled by \<open>pyval\<close>: \<open>None\<close>, booleans, integers and strings.
\<close>

datatype pyval = VNone | VBool bool | VInt int | VStr string

datatype py_error =
    IndexError
  | AttributeError
  | ValueError string

text \<open>Python truthiness, as used by \<open>if x:\<close> and \<open>bool(x)\<close>.\<close>

fun truthy :: "pyval \<Rightarrow> bool" where
  "truthy VNone = False"
| "truthy (VBool b) = b"
| "truthy (VInt i) = (i \<noteq> 0)"
| "truthy (VStr s) = (s \<noteq> [])"

text \<open>\<open>s.split(c)\<close> for a one-character separator: never returns the empty list.\<close>

fun split_on :: "char \<Rightarrow> string \<Rightarrow> string list" where
  "split_on c [] = [[]]"
| "split_on c (x # xs) =
     (if x = c then [] # split_on c xs
      else (case split_on c xs of
              [] \<Rightarrow> [[x]]
            | p # ps \<Rightarrow> (x # p) # ps))"

definition is_digit :: "char \<Rightarrow> bool" where
  "is_digit c = (c \<in> set ''0123456789'')"

definition digit_val :: "char \<Rightarrow> nat" where
  "digit_val c = of_char c - 48"

definition digit_char :: "nat \<Rightarrow> char" where
  "digit_char d = ''0123456789'' ! d"

text \<open>Decimal rendering of a number, as an f-string does it.\<close>

fun show_nat :: "nat \<Rightarrow> string" where
  "show_nat n = (if n < 10 then [digit_char n] else show_nat (n div 10) @ [digit_char (n mod 10)])"

declare show_nat.simps [simp del]

definition show_int :: "int \<Rightarrow> string" where
  "show_int i = (if i < 0 then CHR ''-'' # show_nat (nat (- i)) else show_nat (nat i))"

definition is_space :: "char \<Rightarrow> bool" where
  "is_space c = (c \<in> {CHR '' '', CHR 0x09, CHR 0x0A, CHR 0x0B, CHR 0x0C, CHR 0x0D})"

definition strip :: "string \<Rightarrow> string" where
  "strip s = rev (dropWhile is_space (rev (dropWhile is_space s)))"

text \<open>
  The digits after the first one of an integer literal given to \<open>int(str)\<close>: single
  underscores are allowed between digits.
\<close>

fun parse_digits :: "nat \<Rightarrow> string \<Rightarrow> nat option" where
  "parse_digits acc [] = Some acc"
| "parse_digits acc [c] = (if is_digit c then Some (10 * acc + digit_val c) else None)"
| "parse_digits acc (c # d # ds) =
     (if is_digit c then parse_digits (10 * acc + digit_val c) (d # ds)
      else if c = CHR ''_'' \<and> is_digit d then parse_digits (10 * acc + digit_val d) ds
      else None)"

definition parse_unsigned :: "string \<Rightarrow> nat option" where
  "parse_unsigned s =
     (case s of
        [] \<Rightarrow> None
      | d # ds \<Rightarrow> if is_digit d then parse_digits (digit_val d) ds else None)"

text \<open>
  \<open>int(s)\<close> on an ASCII string: the six ASCII blanks are stripped, then an optional
  sign and decimal digits, with single underscores between digits, are read; \<open>None\<close>
  stands for the \<open>ValueError\<close>. Blanks and digits outside ASCII, which Python accepts
  too, and its limit on the number of digits are not modelled.
\<close>

definition py_int_str :: "string \<Rightarrow> int option" where
  "py_int_str s =
     (case strip s of
        [] \<Rightarrow> None
      | c # cs \<Rightarrow>
          if c = CHR ''-'' then map_option (\<lambda>n. - int n) (parse_unsigned cs)
          else if c = CHR ''+'' then map_option int (parse_unsigned cs)
          else map_option int (parse_unsigned (c # cs)))"

text \<open>\<open>int(v)\<close>; \<open>None\<close> stands for the \<open>TypeError\<close> or \<open>ValueError\<close>.\<close>

fun py_int :: "pyval \<Rightarrow> int option" where
  "py_int VNone = None"
| "py_int (VBool b) = Some (if b then 1 else 0)"
| "py_int (VInt i) = Some i"
| "py_int (VStr s) = py_int_str s"

definition upper_char :: "char \<Rightarrow> char" where
  "upper_char c =
     (case map_of (zip ''abcdefghijklmnopqrstuvwxyz'' ''ABCDEFGHIJKLMNOPQRSTUVWXYZ'') c of
        None \<Rightarrow> c
      | Some u \<Rightarrow> u)"

definition upper :: "string \<Rightarrow> string" where
  "upper s = map upper_char s"

section \<open>The compose model\<close>

text \<open>
  A \<open>ports\<close> entry is a string (\<open>"8080:80"\<close>), a mapping of scalars read through
  the keys \<open>published\<close>, \<open>target\<close>, \<open>protocol\<close> and \<open>port\<close> (each absent or a
  value), or something else (a bare YAML number, for instance), which is neither
  \<open>str\<close> nor \<open>dict\<close>.
\<close>

record port_map =
  pm_published :: "pyval option"
  pm_target :: "pyval option"
  pm_protocol :: "pyval option"
  pm_port :: "pyval option"

datatype port_entry =
    PortStr string
  | PortDict port_map
  | PortOther

text \<open>
  An \<open>expose\<close> entry is a URL string, a mapping from hosts to settings, or something
  else. The settings of a host are a mapping read through the keys \<open>protocol\<close>,
  \<open>path\<close>, \<open>port\<close> and \<open>ingressClassName\<close>, or a value that is not a mapping.
\<close>

record expose_settings =
  es_protocol :: "pyval option"
  es_path :: "pyval option"
  es_port :: "pyval option"
  es_ingressClassName :: "pyval option"

datatype expose_value = SettingsDict expose_settings | SettingsOther

datatype expose_entry =
    ExposeStr string
  | ExposeDict "(string \<times> expose_value) list"
  | ExposeOther

text \<open>
  A \<open>volumes\<close> entry is a string \<open>"source:mountPath"\<close> or something else. A
  \<open>volumesFrom\<close> entry is a mapping: \<open>vf_config\<close> is the \<open>name\<close> under its \<open>config\<close>
  key, which the data model makes mandatory there (\<open>None\<close> when the entry has no
  \<open>config\<close> key), \<open>vf_mountPath\<close> its own \<open>mountPath\<close> key.
\<close>

datatype volume_entry = VolStr string | VolOther

record volumes_from_entry =
  vf_config :: "string option"
  vf_mountPath :: "string option"

text \<open>
  An \<open>envFrom\<close> entry, by the branch the code takes on it: \<open>'config' in item\<close>
  (tested first), else \<open>'secret' in item\<close>, else neither. The argument is the
  \<open>name\<close> found under that key, which the data model makes mandatory.
\<close>

datatype env_from_entry =
    EnvConfig string
  | EnvSecret string
  | EnvOther

text \<open>
  The keys an app and a sidecar share. A field is \<open>None\<close> when the key is absent.
\<close>

record container_cfg =
  image_of :: string
  ports :: "port_entry list option"
  expose :: "expose_entry list option"
  environment :: "(string \<times> pyval) list option"
  envFrom :: "env_from_entry list option"
  volumes :: "volume_entry list option"
  volumesFrom :: "volumes_from_entry list option"
  networks :: "string list option"
  env_file :: "string list option"

record app_spec = container_cfg +
  sidecars :: "(string \<times> container_cfg) list option"
  replicas :: "int option"

section \<open>Field mappers (\<open>BaseGenerator\<close>)\<close>

record service_port =
  sp_name :: string
  sp_port :: int
  sp_targetPort :: int
  sp_protocol :: string

text \<open>
  One iteration of the loop of \<open>_convert_service_ports\<close>: \<open>None\<close> when the entry
  appends nothing, because an exception was caught or because the entry is neither a
  string nor a mapping.
\<close>

fun convert_service_port :: "port_entry \<Rightarrow> service_port option" where
  "convert_service_port (PortStr port) =
     (case split_on CHR '':'' port of
        source # target # _ \<Rightarrow>
          (case (py_int_str source, py_int_str (hd (split_on CHR ''/'' target))) of
             (Some source_port, Some target_port) \<Rightarrow>
               Some \<lparr>sp_name = ''port-'' @ show_int source_port, sp_port = source_port,
                     sp_targetPort = target_port, sp_protocol = ''TCP''\<rparr>
           | _ \<Rightarrow> None)
      | _ \<Rightarrow> None)"
| "convert_service_port (PortDict port) =
     (case (py_int (case pm_published port of None \<Rightarrow> VInt 80 | Some v \<Rightarrow> v),
            py_int (case pm_target port of None \<Rightarrow> VInt 80 | Some v \<Rightarrow> v),
            (case pm_protocol port of
               None \<Rightarrow> Some ''tcp''
             | Some (VStr p) \<Rightarrow> Some p
             | Some _ \<Rightarrow> None)) of
        (Some published_port, Some target_port, Some p) \<Rightarrow>
          Some \<lparr>sp_name = ''port-'' @ show_int published_port, sp_port = published_port,
                sp_targetPort = target_port, sp_protocol = upper p\<rparr>
      | _ \<Rightarrow> None)"
| "convert_service_port PortOther = None"

definition convert_service_ports :: "port_entry list \<Rightarrow> service_port list" where
  "convert_service_ports ps = List.map_filter convert_service_port ps"

text \<open>
  The result of the library's \<open>urlparse\<close>, as far as the generators read it. The
  parser itself belongs to the standard library: the functions below take it as the
  argument \<open>up\<close>, \<open>None\<close> standing for the \<open>ValueError\<close> it can raise.
\<close>

record parsed_url =
  scheme :: string
  netloc :: string
  path :: string

type_synonym urlparse = "string \<Rightarrow> parsed_url option"

definition startswith :: "string \<Rightarrow> string \<Rightarrow> bool" where
  "startswith s pre = (take (length pre) s = pre)"

record container_port =
  containerPort :: int
  protocol :: string

text \<open>
  One iteration of the loop of \<open>_convert_ports\<close>: the container ports the entry
  appends, none when an exception was caught.
\<close>

fun convert_port :: "urlparse \<Rightarrow> port_entry \<Rightarrow> container_port list" where
  "convert_port up (PortStr port) =
     (case (if startswith port ''http'' then
              (case up port of
                 None \<Rightarrow> None
               | Some parsed \<Rightarrow>
                   if CHR '':'' \<in> set (netloc parsed) then
                     (case split_on CHR '':'' (netloc parsed) of
                        _ # p # _ \<Rightarrow> Some p
                      | _ \<Rightarrow> None)
                   else Some (if scheme parsed = ''http'' then ''80'' else ''443''))
            else Some port) of
        None \<Rightarrow> []
      | Some p \<Rightarrow>
          (case py_int_str (hd (split_on CHR ''/'' (last (split_on CHR '':'' p)))) of
             None \<Rightarrow> []
           | Some target \<Rightarrow> [\<lparr>containerPort = target, protocol = ''TCP''\<rparr>]))"
| "convert_port up (PortDict port) =
     (case pm_port port of
        None \<Rightarrow> []
      | Some v \<Rightarrow>
          (case (py_int v,
                 (case pm_protocol port of
                    None \<Rightarrow> Some ''TCP''
                  | Some (VStr p) \<Rightarrow> Some p
                  | Some _ \<Rightarrow> None)) of
             (Some n, Some p) \<Rightarrow> [\<lparr>containerPort = n, protocol = upper p\<rparr>]
           | _ \<Rightarrow> []))"
| "convert_port up PortOther = []"

definition convert_ports :: "urlparse \<Rightarrow> port_entry list \<Rightarrow> container_port list" where
  "convert_ports up ps = concat (map (convert_port up) ps)"

text \<open>\<open>str(v)\<close>, as \<open>_convert_environment\<close> applies it to each value.\<close>

fun py_str :: "pyval \<Rightarrow> string" where
  "py_str VNone = ''None''"
| "py_str (VBool b) = (if b then ''True'' else ''False'')"
| "py_str (VInt i) = show_int i"
| "py_str (VStr s) = s"

definition convert_environment :: "(string \<times> pyval) list \<Rightarrow> (string \<times> string) list" where
  "convert_environment env = map (\<lambda>kv. (fst kv, py_str (snd kv))) env"

datatype env_from_ref = ConfigMapRef string | SecretRef string

fun convert_env_from :: "env_from_entry list \<Rightarrow> env_from_ref list" where
  "convert_env_from [] = []"
| "convert_env_from (EnvConfig n # items) = ConfigMapRef n # convert_env_from items"
| "convert_env_from (EnvSecret n # items) = SecretRef n # convert_env_from items"
| "convert_env_from (EnvOther # items) = convert_env_from items"

section \<open>Service generator\<close>

record service =
  svc_name :: string
  svc_namespace :: string
  svc_labels :: "(string \<times> string) list"
  svc_type :: string
  svc_ports :: "service_port list"
  svc_selector :: "(string \<times> string) list"

text \<open>\<open>config.get(key)\<close> used as a condition: the key is present and its list is not empty.\<close>

definition nonempty :: "'a list option \<Rightarrow> bool" where
  "nonempty v = (case v of None \<Rightarrow> False | Some xs \<Rightarrow> xs \<noteq> [])"

definition needs_service :: "'a container_cfg_scheme \<Rightarrow> bool" where
  "needs_service config = (nonempty (ports config) \<or> nonempty (expose config))"

text \<open>
  \<open>_is_external_port\<close>: an entry that is neither a string nor a mapping has no
  \<open>get\<close>, and the call raises.
\<close>

fun is_external_port :: "port_entry \<Rightarrow> py_error + bool" where
  "is_external_port (PortStr port) = Inr (CHR '':'' \<in> set port)"
| "is_external_port (PortDict port) =
     Inr (case pm_published port of None \<Rightarrow> False | Some v \<Rightarrow> truthy v)"
| "is_external_port PortOther = Inl AttributeError"

text \<open>\<open>any(self._is_external_port(p) for p in ports)\<close> stops at the first true entry.\<close>

fun any_external_port :: "port_entry list \<Rightarrow> py_error + bool" where
  "any_external_port [] = Inr False"
| "any_external_port (p # ps) =
     (case is_external_port p of
        Inl e \<Rightarrow> Inl e
      | Inr b \<Rightarrow> if b then Inr True else any_external_port ps)"

definition sidecar_port :: "string \<Rightarrow> nat \<times> service_port \<Rightarrow> service_port" where
  "sidecar_port prefix ip =
     \<lparr>sp_name = prefix @ show_nat (fst ip), sp_port = sp_port (snd ip),
      sp_targetPort = sp_targetPort (snd ip), sp_protocol = sp_protocol (snd ip)\<rparr>"

definition sidecar_service ::
  "string \<Rightarrow> string \<Rightarrow> string \<Rightarrow> string \<Rightarrow> string \<Rightarrow> string \<Rightarrow> service_port list \<Rightarrow> service" where
  "sidecar_service ns app_name sidecar_name nm ty prefix ps =
     \<lparr>svc_name = nm, svc_namespace = ns,
      svc_labels = [(''app'', app_name), (''component'', ''sidecar-'' @ sidecar_name)],
      svc_type = ty,
      svc_ports = map (sidecar_port prefix) (List.enumerate 0 ps),
      svc_selector = [(''app'', app_name), (''component'', ''sidecar-'' @ sidecar_name)]\<rparr>"

definition generate_sidecar_services ::
  "string \<Rightarrow> string \<Rightarrow> string \<Rightarrow> 'a container_cfg_scheme \<Rightarrow> py_error + service list" where
  "generate_sidecar_services ns app_name sidecar_name config =
     (let service_name = app_name @ ''-'' @ sidecar_name in
      case ports config of
        None \<Rightarrow> Inr []
      | Some raw \<Rightarrow>
          if raw = [] then Inr []
          else
            (let ps = convert_service_ports raw;
                 cluster_ip = sidecar_service ns app_name sidecar_name service_name
                                ''ClusterIP'' ''port-'' ps
             in case any_external_port raw of
                  Inl e \<Rightarrow> Inl e
                | Inr b \<Rightarrow>
                    if b then
                      Inr [cluster_ip,
                           sidecar_service ns app_name sidecar_name (service_name @ ''-lb'')
                             ''LoadBalancer'' ''lb-port-'' ps]
                    else Inr [cluster_ip]))"

fun sidecars_services ::
  "string \<Rightarrow> string \<Rightarrow> (string \<times> 'a container_cfg_scheme) list \<Rightarrow> py_error + service list" where
  "sidecars_services ns name [] = Inr []"
| "sidecars_services ns name ((sidecar_name, sidecar_config) # rest) =
     (if needs_service sidecar_config then
        (case generate_sidecar_services ns name sidecar_name sidecar_config of
           Inl e \<Rightarrow> Inl e
         | Inr ss \<Rightarrow>
             (case sidecars_services ns name rest of
                Inl e \<Rightarrow> Inl e
              | Inr others \<Rightarrow> Inr (ss @ others)))
      else sidecars_services ns name rest)"

text \<open>The services of the main app all carry the labels and selector of component \<open>main\<close>.\<close>

definition main_service :: "string \<Rightarrow> string \<Rightarrow> string \<Rightarrow> string \<Rightarrow> service_port list \<Rightarrow> service" where
  "main_service ns name nm ty ps =
     \<lparr>svc_name = nm, svc_namespace = ns,
      svc_labels = [(''app'', name), (''component'', ''main'')],
      svc_type = ty,
      svc_ports = ps,
      svc_selector = [(''app'', name), (''component'', ''main'')]\<rparr>"

definition default_service :: "string \<Rightarrow> string \<Rightarrow> service_port \<Rightarrow> service" where
  "default_service ns name port =
     main_service ns name name ''ClusterIP''
       [\<lparr>sp_name = ''default'', sp_port = sp_port port,
         sp_targetPort = sp_targetPort port, sp_protocol = sp_protocol port\<rparr>]"

definition lb_service :: "string \<Rightarrow> string \<Rightarrow> service_port \<Rightarrow> service" where
  "lb_service ns name port =
     main_service ns name (name @ ''-lb'') ''LoadBalancer''
       [\<lparr>sp_name = ''lb-https'', sp_port = sp_port port,
         sp_targetPort = sp_targetPort port, sp_protocol = sp_protocol port\<rparr>]"

definition ingress_service :: "string \<Rightarrow> string \<Rightarrow> service" where
  "ingress_service ns name =
     main_service ns name (name @ ''-ingress'') ''ClusterIP''
       [\<lparr>sp_name = ''ingress-http'', sp_port = 80, sp_targetPort = 80, sp_protocol = ''TCP''\<rparr>]"

text \<open>
  \<open>ServiceGenerator.generate\<close>. The two index expressions \<open>[0]\<close> and \<open>[1]\<close> on the
  converted list raise \<open>IndexError\<close> when the list is too short.
\<close>

definition default_tier :: "string \<Rightarrow> string \<Rightarrow> port_entry list option \<Rightarrow> py_error + service list" where
  "default_tier ns name raw =
     (if nonempty raw then
        (case convert_service_ports (the raw) of
           [] \<Rightarrow> Inl IndexError
         | port # _ \<Rightarrow> Inr [default_service ns name port])
      else Inr [])"

definition lb_tier :: "string \<Rightarrow> string \<Rightarrow> port_entry list option \<Rightarrow> py_error + service list" where
  "lb_tier ns name raw =
     (if nonempty raw \<and> length (the raw) > 1 then
        (case convert_service_ports (the raw) of
           _ # port # _ \<Rightarrow> Inr [lb_service ns name port]
         | _ \<Rightarrow> Inl IndexError)
      else Inr [])"

definition service_generate :: "string \<Rightarrow> string \<Rightarrow> app_spec \<Rightarrow> py_error + service list" where
  "service_generate ns name config =
     (case default_tier ns name (ports config) of
        Inl e \<Rightarrow> Inl e
      | Inr s1 \<Rightarrow>
          (case sidecars_services ns name (case sidecars config of None \<Rightarrow> [] | Some scs \<Rightarrow> scs) of
             Inl e \<Rightarrow> Inl e
           | Inr s2 \<Rightarrow>
               (case lb_tier ns name (ports config) of
                  Inl e \<Rightarrow> Inl e
                | Inr s3 \<Rightarrow>
                    Inr (s1 @ s2 @ s3 @
                         (if nonempty (expose config) then [ingress_service ns name] else [])))))"

section \<open>Volume generator\<close>

datatype volume_source =
    ConfigMapSource string
  | HostPathSource string string
  | PVCSource string

record volume =
  vol_name :: string
  vol_source :: volume_source

text \<open>The pod-level volume of one \<open>volumesFrom\<close> entry, when it has a \<open>config\<close> key.\<close>

definition config_volume :: "volumes_from_entry \<Rightarrow> volume option" where
  "config_volume v =
     (case vf_config v of
        None \<Rightarrow> None
      | Some config_name \<Rightarrow>
          Some \<lparr>vol_name = ''config-'' @ config_name,
                vol_source = ConfigMapSource (''config-'' @ config_name)\<rparr>)"

text \<open>
  The pod-level volume of the \<open>volumes\<close> entry at index \<open>i\<close> of the container
  \<open>name\<close>: a string with at least two colon-separated parts.
\<close>

fun positional_volume :: "string \<Rightarrow> nat \<times> volume_entry \<Rightarrow> volume option" where
  "positional_volume name (i, VolStr v) =
     (case split_on CHR '':'' v of
        host_path # mount_path # _ \<Rightarrow>
          (let volume_name = ''vol-'' @ name @ ''-'' @ show_nat i in
           if startswith host_path ''/'' then
             Some \<lparr>vol_name = volume_name, vol_source = HostPathSource host_path ''Directory''\<rparr>
           else
             Some \<lparr>vol_name = volume_name, vol_source = PVCSource host_path\<rparr>)
      | _ \<Rightarrow> None)"
| "positional_volume name (i, VolOther) = None"

definition generate_container_volumes :: "string \<Rightarrow> 'a container_cfg_scheme \<Rightarrow> volume list" where
  "generate_container_volumes name config =
     (case volumesFrom config of
        None \<Rightarrow> []
      | Some vfs \<Rightarrow> List.map_filter config_volume vfs)
     @ (case volumes config of
          None \<Rightarrow> []
        | Some vs \<Rightarrow> List.map_filter (positional_volume name) (List.enumerate 0 vs))"

text \<open>
  The names of the pod-level volumes of a container, by origin: those of its
  \<open>volumesFrom\<close> entries and those of its \<open>volumes\<close> entries.
\<close>

definition config_names :: "'a container_cfg_scheme \<Rightarrow> string set" where
  "config_names cfg =
     (case volumesFrom cfg of
        None \<Rightarrow> {}
      | Some vfs \<Rightarrow> vol_name ` set (List.map_filter config_volume vfs))"

definition positional_names :: "string \<Rightarrow> 'a container_cfg_scheme \<Rightarrow> string set" where
  "positional_names n cfg =
     (case volumes cfg of
        None \<Rightarrow> {}
      | Some vs \<Rightarrow> vol_name ` set (List.map_filter (positional_volume n) (List.enumerate 0 vs)))"

text \<open>
  The sidecar loop of \<open>generate_volumes\<close>. A sidecar without \<open>volumes\<close> gets the
  app's list assigned in place: the loop returns the sidecars as it leaves them, next
  to the volumes it collected.
\<close>

definition inherit_volumes :: "'a container_cfg_scheme \<Rightarrow> container_cfg \<Rightarrow> container_cfg" where
  "inherit_volumes config sidecar_config =
     (if volumes config \<noteq> None \<and> volumes sidecar_config = None
      then sidecar_config\<lparr>volumes := volumes config\<rparr>
      else sidecar_config)"

fun sidecar_volumes ::
  "string \<Rightarrow> 'a container_cfg_scheme \<Rightarrow> (string \<times> container_cfg) list
   \<Rightarrow> volume list \<times> (string \<times> container_cfg) list" where
  "sidecar_volumes name config [] = ([], [])"
| "sidecar_volumes name config ((sidecar_name, sidecar_config) # rest) =
     (let sidecar_config' = inherit_volumes config sidecar_config;
          vs = generate_container_volumes (name @ ''-'' @ sidecar_name) sidecar_config';
          r = sidecar_volumes name config rest
      in (vs @ fst r, (sidecar_name, sidecar_config') # snd r))"

text \<open>Deduplication by name, first occurrence wins.\<close>

fun unique_volumes :: "string set \<Rightarrow> volume list \<Rightarrow> volume list" where
  "unique_volumes seen_names [] = []"
| "unique_volumes seen_names (v # vs) =
     (if vol_name v \<notin> seen_names
      then v # unique_volumes (insert (vol_name v) seen_names) vs
      else unique_volumes seen_names vs)"

definition generate_volumes :: "string \<Rightarrow> app_spec \<Rightarrow> volume list \<times> app_spec" where
  "generate_volumes name config =
     (case sidecars config of
        None \<Rightarrow> (unique_volumes {} (generate_container_volumes name config), config)
      | Some scs \<Rightarrow>
          (let r = sidecar_volumes name config scs in
           (unique_volumes {} (generate_container_volumes name config @ fst r),
            config\<lparr>sidecars := Some (snd r)\<rparr>)))"

record volume_spec =
  vs_size :: "string option"

record pvc =
  pvc_name :: string
  pvc_namespace :: string
  pvc_accessModes :: "string list"
  pvc_storage :: string

definition generate_pvc :: "string \<Rightarrow> string \<Rightarrow> volume_spec \<Rightarrow> pvc" where
  "generate_pvc ns name config =
     \<lparr>pvc_name = name, pvc_namespace = ns, pvc_accessModes = [''ReadWriteOnce''],
      pvc_storage = (case vs_size config of None \<Rightarrow> ''1Gi'' | Some s \<Rightarrow> s)\<rparr>"

section \<open>Deployment generator\<close>

record volume_mount =
  vm_name :: string
  vm_mountPath :: string

record container =
  c_name :: string
  c_image :: string
  c_ports :: "container_port list"
  c_env :: "(string \<times> string) list"
  c_volumeMounts :: "volume_mount list"
  c_envFrom :: "env_from_ref list option"

record deployment =
  dep_name :: string
  dep_namespace :: string
  dep_replicas :: int
  dep_matchLabels :: "(string \<times> string) list"
  dep_templateLabels :: "(string \<times> string) list"
  dep_containers :: "container list"
  dep_volumes :: "volume list"

record configmap =
  cm_name :: string
  cm_namespace :: string
  cm_data :: "(string \<times> string) list"

record config_spec =
  cs_external :: "bool option"
  cs_data :: "(string \<times> string) list option"

record secret_spec =
  ss_external :: "bool option"

text \<open>
  The parsed compose document. \<open>apps\<close> is read with \<open>self.config['apps']\<close>; the
  other three keys may be absent.
\<close>

record compose_model =
  apps :: "(string \<times> app_spec) list"
  model_volumes :: "(string \<times> volume_spec) list option"
  configs :: "(string \<times> config_spec) list option"
  secrets :: "(string \<times> secret_spec) list option"

text \<open>The volume mount of the \<open>volumes\<close> entry at index \<open>i\<close> of the container \<open>name\<close>.\<close>

fun positional_mount :: "string \<Rightarrow> nat \<times> volume_entry \<Rightarrow> volume_mount option" where
  "positional_mount name (i, VolStr v) =
     (case split_on CHR '':'' v of
        _ # mount_path # _ \<Rightarrow>
          Some \<lparr>vm_name = ''vol-'' @ name @ ''-'' @ show_nat i, vm_mountPath = mount_path\<rparr>
      | _ \<Rightarrow> None)"
| "positional_mount name (i, VolOther) = None"

definition convert_volume_mounts :: "string \<Rightarrow> volume_entry list \<Rightarrow> volume_mount list" where
  "convert_volume_mounts name vs = List.map_filter (positional_mount name) (List.enumerate 0 vs)"

definition config_mount :: "volumes_from_entry \<Rightarrow> volume_mount option" where
  "config_mount v =
     (case vf_config v of
        None \<Rightarrow> None
      | Some config_name \<Rightarrow>
          Some \<lparr>vm_name = ''config-'' @ config_name,
                vm_mountPath = (case vf_mountPath v of
                                  None \<Rightarrow> ''/config/'' @ config_name
                                | Some p \<Rightarrow> p)\<rparr>)"

definition convert_volumes_from :: "volumes_from_entry list \<Rightarrow> volume_mount list" where
  "convert_volumes_from vfs = List.map_filter config_mount vfs"

definition create_container :: "urlparse \<Rightarrow> string \<Rightarrow> 'a container_cfg_scheme \<Rightarrow> container" where
  "create_container up name config =
     \<lparr>c_name = name,
      c_image = image_of config,
      c_ports = convert_ports up (case ports config of None \<Rightarrow> [] | Some ps \<Rightarrow> ps),
      c_env = convert_environment (case environment config of None \<Rightarrow> [] | Some env \<Rightarrow> env),
      c_volumeMounts =
        convert_volume_mounts name (case volumes config of None \<Rightarrow> [] | Some vs \<Rightarrow> vs)
        @ (case volumesFrom config of None \<Rightarrow> [] | Some vfs \<Rightarrow> convert_volumes_from vfs),
      c_envFrom = map_option convert_env_from (envFrom config)\<rparr>"

text \<open>
  \<open>_merge_sidecar_config\<close> works on a copy of the sidecar's mapping: the fields
  \<open>volumes\<close>, \<open>networks\<close>, \<open>env_file\<close> and \<open>volumesFrom\<close> come from the app when the
  sidecar has none.
\<close>

definition merge_sidecar_config :: "'a container_cfg_scheme \<Rightarrow> container_cfg \<Rightarrow> container_cfg" where
  "merge_sidecar_config app_config sidecar_config =
     sidecar_config
       \<lparr>volumes := (if volumes app_config \<noteq> None \<and> volumes sidecar_config = None
                    then volumes app_config else volumes sidecar_config),
        networks := (if networks app_config \<noteq> None \<and> networks sidecar_config = None
                     then networks app_config else networks sidecar_config),
        env_file := (if env_file app_config \<noteq> None \<and> env_file sidecar_config = None
                     then env_file app_config else env_file sidecar_config),
        volumesFrom := (if volumesFrom app_config \<noteq> None \<and> volumesFrom sidecar_config = None
                        then volumesFrom app_config else volumesFrom sidecar_config)\<rparr>"

definition inline_configmap :: "string \<Rightarrow> string \<times> config_spec \<Rightarrow> configmap option" where
  "inline_configmap ns entry =
     (if cs_external (snd entry) = Some True then None
      else Some \<lparr>cm_name = ''config-'' @ fst entry, cm_namespace = ns,
                 cm_data = (case cs_data (snd entry) of None \<Rightarrow> [] | Some d \<Rightarrow> d)\<rparr>)"

record app_resources =
  ar_deployments :: "deployment list"
  ar_configmaps :: "configmap list"

text \<open>
  \<open>DeploymentGenerator.generate\<close>: the containers are built first, then
  \<open>generate_volumes\<close> runs on the app's mapping, which it may change; the app is
  returned as the call leaves it.
\<close>

definition deployment_generate ::
  "urlparse \<Rightarrow> string \<Rightarrow> string \<Rightarrow> app_spec \<Rightarrow> compose_model \<Rightarrow> app_resources \<times> app_spec" where
  "deployment_generate up ns name config compose_config =
     (let cms = (case configs compose_config of
                   None \<Rightarrow> []
                 | Some cs \<Rightarrow> List.map_filter (inline_configmap ns) cs);
          main_container = create_container up name config;
          sidecar_containers =
            map (\<lambda>sc. create_container up (name @ ''-'' @ fst sc)
                         (merge_sidecar_config config (snd sc)))
                (case sidecars config of None \<Rightarrow> [] | Some scs \<Rightarrow> scs);
          gv = generate_volumes name config;
          deployment =
            \<lparr>dep_name = name, dep_namespace = ns,
             dep_replicas = (case replicas config of None \<Rightarrow> 1 | Some r \<Rightarrow> r),
             dep_matchLabels = [(''app'', name)],
             dep_templateLabels = [(''app'', name)],
             dep_containers = main_container # sidecar_containers,
             dep_volumes = fst gv\<rparr>
      in (\<lparr>ar_deployments = [deployment], ar_configmaps = cms\<rparr>, snd gv))"

section \<open>Ingress generator\<close>

record ingress_rule =
  rule_host :: string
  rule_path :: pyval
  rule_pathType :: string
  rule_service :: string
  rule_port :: pyval

record ingress =
  ing_name :: string
  ing_namespace :: string
  ing_rules :: "ingress_rule list"
  ing_ingressClassName :: "pyval option"

text \<open>
  The local variables of \<open>IngressGenerator.generate\<close> that live across the
  iterations of its loop: the rules, the running class name, and \<open>host\<close>, \<open>path\<close>
  and \<open>service_port\<close>, which are assigned together and are unbound (\<open>None\<close>) until an
  entry assigns them.
\<close>

record expose_state =
  st_rules :: "ingress_rule list"
  st_class :: pyval
  st_cur :: "(string \<times> pyval \<times> pyval) option"

text \<open>\<open>s.rstrip(':')\<close>.\<close>

definition rstrip_colon :: "string \<Rightarrow> string" where
  "rstrip_colon s = rev (dropWhile (\<lambda>c. c = CHR '':'') (rev s))"

text \<open>
  The inner loop over the items of a mapping entry: \<open>continue\<close> on settings that are
  not a mapping goes to the next item.
\<close>

fun expose_items :: "(string \<times> expose_value) list \<Rightarrow> expose_state \<Rightarrow> expose_state" where
  "expose_items [] st = st"
| "expose_items ((domain, SettingsOther) # rest) st = expose_items rest st"
| "expose_items ((domain, SettingsDict settings) # rest) st =
     expose_items rest
       (st\<lparr>st_cur := Some (rstrip_colon domain,
                           (case es_path settings of None \<Rightarrow> VStr ''/'' | Some p \<Rightarrow> p),
                           (case es_port settings of None \<Rightarrow> VInt 80 | Some p \<Rightarrow> p)),
           st_class := (case es_ingressClassName settings of
                          None \<Rightarrow> st_class st
                        | Some c \<Rightarrow> c)\<rparr>)"

text \<open>
  \<open>rules.append(...)\<close> at the end of an iteration; with \<open>host\<close> unbound the
  \<open>NameError\<close> is caught and nothing is appended.
\<close>

definition append_rule :: "string \<Rightarrow> expose_state \<Rightarrow> expose_state" where
  "append_rule name st =
     (case st_cur st of
        None \<Rightarrow> st
      | Some (host, pth, service_port) \<Rightarrow>
          st\<lparr>st_rules := st_rules st @
                [\<lparr>rule_host = host, rule_path = pth, rule_pathType = ''Prefix'',
                  rule_service = name, rule_port = service_port\<rparr>]\<rparr>)"

fun expose_step :: "urlparse \<Rightarrow> string \<Rightarrow> expose_state \<Rightarrow> expose_entry \<Rightarrow> expose_state" where
  "expose_step up name st (ExposeStr e) =
     (if \<not> (startswith e ''http://'' \<or> startswith e ''https://'') then st
      else
        (case up e of
           None \<Rightarrow> st
         | Some parsed \<Rightarrow>
             append_rule name
               (st\<lparr>st_cur := Some
                     ((if CHR '':'' \<in> set (netloc parsed)
                       then hd (split_on CHR '':'' (netloc parsed))
                       else netloc parsed),
                      VStr (if path parsed = [] then ''/'' else path parsed),
                      VInt (if scheme parsed = ''http'' then 80 else 443))\<rparr>)))"
| "expose_step up name st (ExposeDict items) =
     (if items = [] then st else append_rule name (expose_items items st))"
| "expose_step up name st ExposeOther = st"

definition ingress_generate ::
  "urlparse \<Rightarrow> string \<Rightarrow> string \<Rightarrow> 'a container_cfg_scheme \<Rightarrow> ingress option" where
  "ingress_generate up ns name config =
     (case expose config of
        None \<Rightarrow> None
      | Some es \<Rightarrow>
          (let st = foldl (expose_step up name)
                      \<lparr>st_rules = [], st_class = VStr ''traefik'', st_cur = None\<rparr> es
           in if st_rules st = [] then None
              else Some \<lparr>ing_name = name, ing_namespace = ns, ing_rules = st_rules st,
                         ing_ingressClassName =
                           (if truthy (st_class st) then Some (st_class st) else None)\<rparr>))"

section \<open>Orchestrating generator\<close>

datatype manifest =
    ConfigMapM configmap
  | PVCM pvc
  | DeploymentM deployment
  | ServiceM service
  | IngressM ingress

fun manifest_name :: "manifest \<Rightarrow> string" where
  "manifest_name (ConfigMapM m) = cm_name m"
| "manifest_name (PVCM m) = pvc_name m"
| "manifest_name (DeploymentM m) = dep_name m"
| "manifest_name (ServiceM m) = svc_name m"
| "manifest_name (IngressM m) = ing_name m"

text \<open>A bundle: a mapping from resource kinds to manifests, in the order of its keys.\<close>

type_synonym resource_bundle = "(string \<times> manifest list) list"

record resources =
  r_configmaps :: "configmap list"
  r_pvcs :: "pvc list"
  r_deployments :: "deployment list"
  r_services :: "service list"
  r_ingress :: "ingress list"

text \<open>
  The loop of \<open>generate_all\<close> over the apps. Each app is returned as the generators
  leave it; an exception of the service generator ends the loop.
\<close>

fun generate_apps ::
  "urlparse \<Rightarrow> string \<Rightarrow> compose_model \<Rightarrow> (string \<times> app_spec) list \<Rightarrow> resources
   \<Rightarrow> (string \<times> app_spec) list \<times> (py_error + resources)" where
  "generate_apps up ns compose_config [] res = ([], Inr res)"
| "generate_apps up ns compose_config ((app_name, app_config) # rest) res =
     (let dg = deployment_generate up ns app_name app_config compose_config;
          app_config' = snd dg;
          res1 = res\<lparr>r_deployments := r_deployments res @ ar_deployments (fst dg),
                     r_configmaps := r_configmaps res @ ar_configmaps (fst dg)\<rparr>
      in if needs_service app_config' then
           (case service_generate ns app_name app_config' of
              Inl e \<Rightarrow> ((app_name, app_config') # rest, Inl e)
            | Inr services \<Rightarrow>
                (let res2 = res1\<lparr>r_services := r_services res1 @ services\<rparr>;
                     service_for_ingress =
                       find (\<lambda>s. map_of (svc_labels s) ''component'' = Some ''main'') services;
                     res3 =
                       (if expose app_config' \<noteq> None \<and> service_for_ingress \<noteq> None then
                          (case ingress_generate up ns app_name app_config' of
                             None \<Rightarrow> res2
                           | Some ing \<Rightarrow> res2\<lparr>r_ingress := r_ingress res2 @ [ing]\<rparr>)
                        else res2);
                     r = generate_apps up ns compose_config rest res3
                 in ((app_name, app_config') # fst r, snd r)))
         else
           (let r = generate_apps up ns compose_config rest res1
            in ((app_name, app_config') # fst r, snd r)))"

definition to_bundle :: "resources \<Rightarrow> resource_bundle" where
  "to_bundle res =
     filter (\<lambda>kv. snd kv \<noteq> [])
       [(''configmaps'', map ConfigMapM (r_configmaps res)),
        (''pvcs'', map PVCM (r_pvcs res)),
        (''deployments'', map DeploymentM (r_deployments res)),
        (''services'', map ServiceM (r_services res)),
        (''ingress'', map IngressM (r_ingress res))]"

text \<open>
  \<open>KubeResourceGenerator.generate_all\<close>: the compose model as the pass leaves it, and
  the bundle or the exception raised.
\<close>

definition generate_all_resources ::
  "urlparse \<Rightarrow> string \<Rightarrow> compose_model \<Rightarrow> compose_model \<times> (py_error + resources)" where
  "generate_all_resources up ns config =
     (let pvcs = map (\<lambda>kv. generate_pvc ns (fst kv) (snd kv))
                   (case model_volumes config of None \<Rightarrow> [] | Some vs \<Rightarrow> vs);
          r = generate_apps up ns config (apps config)
                \<lparr>r_configmaps = [], r_pvcs = pvcs, r_deployments = [], r_services = [],
                 r_ingress = []\<rparr>
      in (config\<lparr>apps := fst r\<rparr>, snd r))"

definition generate_all ::
  "urlparse \<Rightarrow> string \<Rightarrow> compose_model \<Rightarrow> compose_model \<times> (py_error + resource_bundle)" where
  "generate_all up ns config =
     (let r = generate_all_resources up ns config
      in (fst r, (case snd r of Inl e \<Rightarrow> Inl e | Inr res \<Rightarrow> Inr (to_bundle res))))"

text \<open>
  The \<open>ingressClassName\<close> values the loop meets, in the order of the \<open>expose\<close> list
  and, within a mapping entry, of its items.
\<close>

fun entry_classes :: "expose_entry \<Rightarrow> pyval list" where
  "entry_classes (ExposeDict items) =
     List.map_filter
       (\<lambda>kv. case snd kv of SettingsDict settings \<Rightarrow> es_ingressClassName settings
                            | SettingsOther \<Rightarrow> None)
       items"
| "entry_classes (ExposeStr e) = []"
| "entry_classes ExposeOther = []"

definition class_values :: "expose_entry list \<Rightarrow> pyval list" where
  "class_values es = concat (map entry_classes es)"

text \<open>
  An entry that by itself yields a rule: a URL string with an accepted scheme that
  parses, or a mapping with settings that are a mapping.
\<close>

fun is_settings_dict :: "expose_value \<Rightarrow> bool" where
  "is_settings_dict (SettingsDict settings) = True"
| "is_settings_dict SettingsOther = False"

fun usable :: "urlparse \<Rightarrow> expose_entry \<Rightarrow> bool" where
  "usable up (ExposeStr e) =
     ((startswith e ''http://'' \<or> startswith e ''https://'') \<and> up e \<noteq> None)"
| "usable up (ExposeDict items) = list_ex (\<lambda>kv. is_settings_dict (snd kv)) items"
| "usable up ExposeOther = False"

section \<open>Referential validator\<close>

definition quoted :: "string \<Rightarrow> string" where
  "quoted s = [CHR 0x27] @ s @ [CHR 0x27]"

text \<open>
  \<open>_validate_config_reference\<close>. The prefix naming the sidecar is left out when the
  sidecar name is absent or empty.
\<close>

definition sidecar_prefix :: "string option \<Rightarrow> string" where
  "sidecar_prefix sidecar_name =
     (case sidecar_name of
        None \<Rightarrow> []
      | Some sn \<Rightarrow> if sn = [] then [] else ''Sidecar '' @ quoted sn @ '' in '')"

definition validate_config_reference ::
  "string \<Rightarrow> string \<Rightarrow> (string \<times> config_spec) list \<Rightarrow> string set \<Rightarrow> string option
   \<Rightarrow> py_error + unit" where
  "validate_config_reference config_name app_name cfgs external_configs sidecar_name =
     (case map_of cfgs config_name of
        None \<Rightarrow>
          Inl (ValueError (sidecar_prefix sidecar_name @ ''App '' @ quoted app_name
                 @ '' references config '' @ quoted config_name @ '' which does not exist''))
      | Some c \<Rightarrow>
          if cs_external c = Some True \<and> config_name \<notin> external_configs then
            Inl (ValueError (sidecar_prefix sidecar_name @ ''App '' @ quoted app_name
                   @ '' references config '' @ quoted config_name
                   @ '' which is marked as external but not found in external configs''))
          else Inr ())"

text \<open>The message for a secret that is not in the external-secrets set.\<close>

definition secret_message :: "string \<Rightarrow> string option \<Rightarrow> string \<Rightarrow> string" where
  "secret_message app_name sidecar_name secret_name =
     (case sidecar_name of
        None \<Rightarrow> ''App '' @ quoted app_name @ '' references secret '' @ quoted secret_name
                 @ '' which is not marked as external''
      | Some sn \<Rightarrow> ''Sidecar '' @ quoted sn @ '' in app '' @ quoted app_name
                 @ '' references secret '' @ quoted secret_name
                 @ '' which is not marked as external'')"

text \<open>The loop over \<open>volumesFrom\<close>: entries without a \<open>config\<close> or with an empty name are passed over.\<close>

fun check_volumes_from ::
  "string \<Rightarrow> string option \<Rightarrow> (string \<times> config_spec) list \<Rightarrow> string set
   \<Rightarrow> volumes_from_entry list \<Rightarrow> py_error + unit" where
  "check_volumes_from app_name sidecar_name cfgs external_configs [] = Inr ()"
| "check_volumes_from app_name sidecar_name cfgs external_configs (v # rest) =
     (case vf_config v of
        None \<Rightarrow> check_volumes_from app_name sidecar_name cfgs external_configs rest
      | Some config_name \<Rightarrow>
          if config_name = [] then
            check_volumes_from app_name sidecar_name cfgs external_configs rest
          else
            (case validate_config_reference config_name app_name cfgs external_configs
                    sidecar_name of
               Inl e \<Rightarrow> Inl e
             | Inr _ \<Rightarrow> check_volumes_from app_name sidecar_name cfgs external_configs rest))"

text \<open>The loop over \<open>envFrom\<close>.\<close>

fun check_env_from ::
  "string \<Rightarrow> string option \<Rightarrow> (string \<times> config_spec) list \<Rightarrow> string set \<Rightarrow> string set
   \<Rightarrow> env_from_entry list \<Rightarrow> py_error + unit" where
  "check_env_from app_name sidecar_name cfgs external_configs external_secrets [] = Inr ()"
| "check_env_from app_name sidecar_name cfgs external_configs external_secrets
     (EnvConfig config_name # rest) =
     (if config_name = [] then
        check_env_from app_name sidecar_name cfgs external_configs external_secrets rest
      else
        (case validate_config_reference config_name app_name cfgs external_configs
                sidecar_name of
           Inl e \<Rightarrow> Inl e
         | Inr _ \<Rightarrow>
             check_env_from app_name sidecar_name cfgs external_configs external_secrets rest))"
| "check_env_from app_name sidecar_name cfgs external_configs external_secrets
     (EnvSecret secret_name # rest) =
     (if secret_name \<noteq> [] \<and> secret_name \<notin> external_secrets then
        Inl (ValueError (secret_message app_name sidecar_name secret_name))
      else check_env_from app_name sidecar_name cfgs external_configs external_secrets rest)"
| "check_env_from app_name sidecar_name cfgs external_configs external_secrets
     (EnvOther # rest) =
     check_env_from app_name sidecar_name cfgs external_configs external_secrets rest"

text \<open>The checks of one app or one sidecar: \<open>volumesFrom\<close> first, then \<open>envFrom\<close>.\<close>

definition validate_container ::
  "string \<Rightarrow> string option \<Rightarrow> (string \<times> config_spec) list \<Rightarrow> string set \<Rightarrow> string set
   \<Rightarrow> 'a container_cfg_scheme \<Rightarrow> py_error + unit" where
  "validate_container app_name sidecar_name cfgs external_configs external_secrets config =
     (case check_volumes_from app_name sidecar_name cfgs external_configs
             (case volumesFrom config of None \<Rightarrow> [] | Some vfs \<Rightarrow> vfs) of
        Inl e \<Rightarrow> Inl e
      | Inr _ \<Rightarrow>
          check_env_from app_name sidecar_name cfgs external_configs external_secrets
            (case envFrom config of None \<Rightarrow> [] | Some efs \<Rightarrow> efs))"

fun validate_sidecars ::
  "string \<Rightarrow> (string \<times> config_spec) list \<Rightarrow> string set \<Rightarrow> string set
   \<Rightarrow> (string \<times> container_cfg) list \<Rightarrow> py_error + unit" where
  "validate_sidecars app_name cfgs external_configs external_secrets [] = Inr ()"
| "validate_sidecars app_name cfgs external_configs external_secrets
     ((sidecar_name, sidecar_config) # rest) =
     (case validate_container app_name (Some sidecar_name) cfgs external_configs
             external_secrets sidecar_config of
        Inl e \<Rightarrow> Inl e
      | Inr _ \<Rightarrow> validate_sidecars app_name cfgs external_configs external_secrets rest)"

fun validate_apps ::
  "(string \<times> config_spec) list \<Rightarrow> string set \<Rightarrow> string set
   \<Rightarrow> (string \<times> app_spec) list \<Rightarrow> py_error + unit" where
  "validate_apps cfgs external_configs external_secrets [] = Inr ()"
| "validate_apps cfgs external_configs external_secrets ((app_name, app_config) # rest) =
     (case validate_container app_name None cfgs external_configs external_secrets
             app_config of
        Inl e \<Rightarrow> Inl e
      | Inr _ \<Rightarrow>
          (case validate_sidecars app_name cfgs external_configs external_secrets
                  (case sidecars app_config of None \<Rightarrow> [] | Some scs \<Rightarrow> scs) of
             Inl e \<Rightarrow> Inl e
           | Inr _ \<Rightarrow> validate_apps cfgs external_configs external_secrets rest))"

definition validate_external_resources ::
  "compose_model \<Rightarrow> string set \<Rightarrow> string set \<Rightarrow> py_error + unit" where
  "validate_external_resources compose_data external_configs external_secrets =
     validate_apps (case configs compose_data of None \<Rightarrow> [] | Some cs \<Rightarrow> cs)
       external_configs external_secrets (apps compose_data)"

subsection \<open>The rule the validator implements, in the words of the specification\<close>

text \<open>
  A reference is a non-empty config name found under \<open>volumesFrom\<close> or \<open>envFrom\<close>,
  or a non-empty secret name found under \<open>envFrom\<close>. The references of a model
  are listed in iteration order: app by app, the app's own before those of its sidecars,
  \<open>volumesFrom\<close> before \<open>envFrom\<close>.
\<close>

datatype reference = ConfigReference string | SecretReference string

definition volumes_from_reference :: "volumes_from_entry \<Rightarrow> reference option" where
  "volumes_from_reference v =
     (case vf_config v of
        None \<Rightarrow> None
      | Some n \<Rightarrow> if n = [] then None else Some (ConfigReference n))"

fun env_from_reference :: "env_from_entry \<Rightarrow> reference option" where
  "env_from_reference (EnvConfig n) = (if n = [] then None else Some (ConfigReference n))"
| "env_from_reference (EnvSecret n) = (if n = [] then None else Some (SecretReference n))"
| "env_from_reference EnvOther = None"

definition container_references :: "'a container_cfg_scheme \<Rightarrow> reference list" where
  "container_references config =
     List.map_filter volumes_from_reference (case volumesFrom config of None \<Rightarrow> [] | Some vfs \<Rightarrow> vfs)
     @ List.map_filter env_from_reference (case envFrom config of None \<Rightarrow> [] | Some efs \<Rightarrow> efs)"

definition app_references :: "string \<times> app_spec \<Rightarrow> (string \<times> string option \<times> reference) list" where
  "app_references a =
     map (\<lambda>r. (fst a, None, r)) (container_references (snd a))
     @ concat (map (\<lambda>sc. map (\<lambda>r. (fst a, Some (fst sc), r)) (container_references (snd sc)))
                 (case sidecars (snd a) of None \<Rightarrow> [] | Some scs \<Rightarrow> scs))"

definition model_references :: "compose_model \<Rightarrow> (string \<times> string option \<times> reference) list" where
  "model_references m = concat (map app_references (apps m))"

definition config_entries :: "compose_model \<Rightarrow> (string \<times> config_spec) list" where
  "config_entries m = (case configs m of None \<Rightarrow> [] | Some cs \<Rightarrow> cs)"

fun reference_name :: "reference \<Rightarrow> string" where
  "reference_name (ConfigReference n) = n"
| "reference_name (SecretReference n) = n"

text \<open>
  A reference is a violation when it names a config absent from \<open>configs\<close>, a config
  marked external and absent from the external-configs set, or a secret absent from the
  external-secrets set.
\<close>

fun violated ::
  "(string \<times> config_spec) list \<Rightarrow> string set \<Rightarrow> string set
   \<Rightarrow> string \<times> string option \<times> reference \<Rightarrow> bool" where
  "violated cfgs external_configs external_secrets (app_name, sidecar_name, ConfigReference n) =
     (n \<notin> fst ` set cfgs
      \<or> (case map_of cfgs n of
            None \<Rightarrow> False
          | Some c \<Rightarrow> cs_external c = Some True \<and> n \<notin> external_configs))"
| "violated cfgs external_configs external_secrets (app_name, sidecar_name, SecretReference n) =
     (n \<notin> external_secrets)"

text \<open>\<open>contains msg s\<close>: the text \<open>s\<close> occurs in the message \<open>msg\<close>.\<close>

fun contains :: "string \<Rightarrow> string \<Rightarrow> bool" where
  "contains [] s = (s = [])"
| "contains (c # cs) s = (startswith (c # cs) s \<or> contains cs s)"

subsection \<open>The failure the validator raises for a reference\<close>

text \<open>
  The message of the exception the code raises on a reference, \<open>None\<close> when it raises
  none; the validator's loops are compared with it reference by reference.
\<close>

fun violation ::
  "(string \<times> config_spec) list \<Rightarrow> string set \<Rightarrow> string set
   \<Rightarrow> string \<times> string option \<times> reference \<Rightarrow> string option" where
  "violation cfgs external_configs external_secrets (app_name, sidecar_name, ConfigReference n) =
     (if n \<notin> fst ` set cfgs then
        Some (sidecar_prefix sidecar_name @ ''App '' @ quoted app_name
              @ '' references config '' @ quoted n @ '' which does not exist'')
      else if map_option cs_external (map_of cfgs n) = Some (Some True)
              \<and> n \<notin> external_configs then
        Some (sidecar_prefix sidecar_name @ ''App '' @ quoted app_name
              @ '' references config '' @ quoted n
              @ '' which is marked as external but not found in external configs'')
      else None)"
| "violation cfgs external_configs external_secrets (app_name, sidecar_name, SecretReference n) =
     (if n \<notin> external_secrets then Some (secret_message app_name sidecar_name n) else None)"

definition first_failure :: "string list \<Rightarrow> py_error + unit" where
  "first_failure msgs = (case msgs of [] \<Rightarrow> Inr () | msg # _ \<Rightarrow> Inl (ValueError msg))"

section \<open>Resource manager\<close>

text \<open>
  The cluster client is consumed, not implemented: four operations by kind and name,
  each of which returns or fails with the API's not-found status or with another
  failure. A client is modelled by its four operations on a cluster state \<open>'s\<close>.
\<close>

datatype api_error = NotFound | OtherFailure string

record 's cluster_client =
  c_read :: "string \<Rightarrow> string \<Rightarrow> 's \<Rightarrow> (api_error + unit) \<times> 's"
  c_patch :: "string \<Rightarrow> string \<Rightarrow> manifest \<Rightarrow> 's \<Rightarrow> (api_error + unit) \<times> 's"
  c_create :: "string \<Rightarrow> manifest \<Rightarrow> 's \<Rightarrow> (api_error + unit) \<times> 's"
  c_delete :: "string \<Rightarrow> string \<Rightarrow> 's \<Rightarrow> (api_error + unit) \<times> 's"

datatype api_call =
    ReadCall string string
  | PatchCall string string
  | CreateCall string string
  | DeleteCall string string

datatype rm_error =
    ApplyFailed string string api_error
  | DeleteFailed string string api_error

definition known_kind :: "string \<Rightarrow> bool" where
  "known_kind resource_type =
     (resource_type \<in> set [''configmaps'', ''pvcs'', ''services'', ''deployments'', ''ingress''])"

text \<open>The \<open>create\<close> call of the not-found branch; its failure is wrapped by the outer handler.\<close>

definition create_resource ::
  "'s cluster_client \<Rightarrow> string \<Rightarrow> manifest \<Rightarrow> api_call list \<Rightarrow> 's
   \<Rightarrow> (rm_error + unit) \<times> api_call list \<times> 's" where
  "create_resource c resource_type resource calls s =
     (let name = manifest_name resource in
      case c_create c resource_type resource s of
        (Inr _, s') \<Rightarrow> (Inr (), calls @ [CreateCall resource_type name], s')
      | (Inl e, s') \<Rightarrow>
          (Inl (ApplyFailed resource_type name e), calls @ [CreateCall resource_type name], s'))"

text \<open>
  The body of the loop of \<open>apply_resources\<close> for one manifest: read, then patch; a
  not-found status from either leads to create; any other failure is wrapped with the
  kind and the name. A kind outside the five known ones matches no branch.
\<close>

definition apply_resource ::
  "'s cluster_client \<Rightarrow> string \<Rightarrow> manifest \<Rightarrow> 's \<Rightarrow> (rm_error + unit) \<times> api_call list \<times> 's" where
  "apply_resource c resource_type resource s =
     (let name = manifest_name resource in
      if \<not> known_kind resource_type then (Inr (), [], s)
      else
        (case c_read c resource_type name s of
           (Inr _, s1) \<Rightarrow>
             (case c_patch c resource_type name resource s1 of
                (Inr _, s2) \<Rightarrow>
                  (Inr (), [ReadCall resource_type name, PatchCall resource_type name], s2)
              | (Inl NotFound, s2) \<Rightarrow>
                  create_resource c resource_type resource
                    [ReadCall resource_type name, PatchCall resource_type name] s2
              | (Inl (OtherFailure reason), s2) \<Rightarrow>
                  (Inl (ApplyFailed resource_type name (OtherFailure reason)),
                   [ReadCall resource_type name, PatchCall resource_type name], s2))
         | (Inl NotFound, s1) \<Rightarrow>
             create_resource c resource_type resource [ReadCall resource_type name] s1
         | (Inl (OtherFailure reason), s1) \<Rightarrow>
             (Inl (ApplyFailed resource_type name (OtherFailure reason)),
              [ReadCall resource_type name], s1)))"

fun apply_list ::
  "'s cluster_client \<Rightarrow> string \<Rightarrow> manifest list \<Rightarrow> 's \<Rightarrow> (rm_error + unit) \<times> api_call list \<times> 's" where
  "apply_list c resource_type [] s = (Inr (), [], s)"
| "apply_list c resource_type (resource # rest) s =
     (case apply_resource c resource_type resource s of
        (Inl e, calls, s1) \<Rightarrow> (Inl e, calls, s1)
      | (Inr _, calls, s1) \<Rightarrow>
          (case apply_list c resource_type rest s1 of
             (r, calls2, s2) \<Rightarrow> (r, calls @ calls2, s2)))"

text \<open>\<open>apply_resources\<close>: the kinds in the order of the bundle's own keys.\<close>

fun apply_resources ::
  "'s cluster_client \<Rightarrow> resource_bundle \<Rightarrow> 's \<Rightarrow> (rm_error + unit) \<times> api_call list \<times> 's" where
  "apply_resources c [] s = (Inr (), [], s)"
| "apply_resources c ((resource_type, resource_list) # rest) s =
     (case apply_list c resource_type resource_list s of
        (Inl e, calls, s1) \<Rightarrow> (Inl e, calls, s1)
      | (Inr _, calls, s1) \<Rightarrow>
          (case apply_resources c rest s1 of
             (r, calls2, s2) \<Rightarrow> (r, calls @ calls2, s2)))"






subsection \<open>What the properties of the resource manager speak of\<close>

text \<open>The targets of a bundle, kind and name, in the order of the bundle.\<close>

definition kind_targets :: "string \<Rightarrow> manifest list \<Rightarrow> (string \<times> string) list" where
  "kind_targets resource_type ms = map (\<lambda>m. (resource_type, manifest_name m)) ms"

definition bundle_targets :: "resource_bundle \<Rightarrow> (string \<times> string) list" where
  "bundle_targets b = concat (map (\<lambda>kv. kind_targets (fst kv) (snd kv)) b)"

text \<open>The targets of the create, patch and delete calls of a log, in order.\<close>

fun created :: "api_call list \<Rightarrow> (string \<times> string) list" where
  "created [] = []"
| "created (CreateCall k n # calls) = (k, n) # created calls"
| "created (_ # calls) = created calls"

fun patched :: "api_call list \<Rightarrow> (string \<times> string) list" where
  "patched [] = []"
| "patched (PatchCall k n # calls) = (k, n) # patched calls"
| "patched (_ # calls) = patched calls"



subsection \<open>A cluster that stores what it is given\<close>

text \<open>
  The cluster the round-trip property assumes: a store of manifests by kind and name.
  Reading, patching or deleting a resource that is not stored answers not-found;
  creating stores the manifest, and fails on a resource that is stored already.
\<close>

type_synonym store = "string \<times> string \<Rightarrow> manifest option"

definition store_client :: "store cluster_client" where
  "store_client =
     \<lparr>c_read = (\<lambda>k n s. (if s (k, n) = None then Inl NotFound else Inr (), s)),
      c_patch = (\<lambda>k n body s.
         if s (k, n) = None then (Inl NotFound, s) else (Inr (), s((k, n) \<mapsto> body))),
      c_create = (\<lambda>k body s.
         if s (k, manifest_name body) = None then (Inr (), s((k, manifest_name body) \<mapsto> body))
         else (Inl (OtherFailure ''AlreadyExists''), s)),
      c_delete = (\<lambda>k n s.
         if s (k, n) = None then (Inl NotFound, s) else (Inr (), s((k, n) := None)))\<rparr>"

subsection \<open>Deleting a flat list of targets\<close>



section \<open>Example inputs\<close>

definition bare_cfg :: container_cfg where
  "bare_cfg =
     \<lparr>image_of = ''nginx'', ports = None, expose = None, environment = None, envFrom = None,
      volumes = None, volumesFrom = None, networks = None, env_file = None\<rparr>"

definition bare_app :: app_spec where
  "bare_app =
     \<lparr>image_of = ''nginx'', ports = None, expose = None, environment = None, envFrom = None,
      volumes = None, volumesFrom = None, networks = None, env_file = None,
      sidecars = None, replicas = None\<rparr>"

text \<open>\<open>ports: ["80"]\<close>: one entry, with no colon.\<close>

definition app_bare_port :: app_spec where
  "app_bare_port = bare_app\<lparr>ports := Some [PortStr ''80'']\<rparr>"

definition app_malformed_ports :: app_spec where
  "app_malformed_ports = bare_app\<lparr>ports := Some [PortStr ''abc'', PortOther]\<rparr>"

definition app_second_port_malformed :: app_spec where
  "app_second_port_malformed = bare_app\<lparr>ports := Some [PortStr ''8080:80'', PortStr ''https'']\<rparr>"

text \<open>The app of the tests: two ports, one exposed host, a sidecar with a port.\<close>

definition whoami_app :: app_spec where
  "whoami_app = bare_app
     \<lparr>ports := Some [PortStr ''8080:80'', PortStr ''8443:443''],
      expose := Some [ExposeDict [(''example.com'',
                  SettingsDict \<lparr>es_protocol = None, es_path = None, es_port = Some (VInt 80),
                                es_ingressClassName = None\<rparr>)]],
      sidecars := Some [(''metrics'', bare_cfg\<lparr>ports := Some [PortStr ''9100:9100'']\<rparr>)]\<rparr>"

text \<open>
  A parser for plain URLs \<open>scheme://host[:port][/path]\<close>, on which it agrees with the
  library's \<open>urlparse\<close>; it instantiates the argument \<open>up\<close> on the example inputs.
\<close>

fun split_scheme :: "string \<Rightarrow> string \<Rightarrow> (string \<times> string) option" where
  "split_scheme acc [] = None"
| "split_scheme acc (c # cs) =
     (if startswith (c # cs) ''://'' then Some (rev acc, drop 3 (c # cs))
      else split_scheme (c # acc) cs)"

definition urlparse_plain :: urlparse where
  "urlparse_plain s =
     (case split_scheme [] s of
        None \<Rightarrow> Some \<lparr>scheme = [], netloc = [], path = s\<rparr>
      | Some (sch, rest) \<Rightarrow>
          Some \<lparr>scheme = sch, netloc = takeWhile (\<lambda>c. c \<noteq> CHR ''/'') rest,
                path = dropWhile (\<lambda>c. c \<noteq> CHR ''/'') rest\<rparr>)"

text \<open>
  The app of the volume test: one host path, and a sidecar that declares no volumes.
\<close>

definition volumes_app :: app_spec where
  "volumes_app = bare_app
     \<lparr>volumes := Some [VolStr ''/host/path:/container/path''],
      sidecars := Some [(''logger'', bare_cfg\<lparr>image_of := ''fluentd''\<rparr>)]\<rparr>"

definition volumes_model :: compose_model where
  "volumes_model =
     \<lparr>apps = [(''whoami'', volumes_app)], model_volumes = None, configs = None, secrets = None\<rparr>"

text \<open>Two apps and one inline config.\<close>

definition two_apps_model :: compose_model where
  "two_apps_model =
     \<lparr>apps = [(''web'', bare_app), (''api'', bare_app\<lparr>image_of := ''api-server''\<rparr>)],
      model_volumes = None,
      configs = Some [(''settings'', \<lparr>cs_external = None, cs_data = Some [(''mode'', ''prod'')]\<rparr>)],
      secrets = None\<rparr>"

text \<open>An exposed host whose \<open>ingressClassName\<close> is the empty string.\<close>

definition app_empty_class :: app_spec where
  "app_empty_class = bare_app
     \<lparr>expose := Some [ExposeDict [(''example.com'',
                  SettingsDict \<lparr>es_protocol = None, es_path = None, es_port = None,
                                es_ingressClassName = Some (VStr [])\<rparr>)]]\<rparr>"

text \<open>Two exposed hosts with a class each, and a URL in between.\<close>

definition app_two_classes :: app_spec where
  "app_two_classes = bare_app
     \<lparr>expose := Some
        [ExposeDict [(''a.example.com'',
           SettingsDict \<lparr>es_protocol = None, es_path = None, es_port = None,
                         es_ingressClassName = Some (VStr ''nginx'')\<rparr>)],
         ExposeStr ''https://b.example.com:8443/api'',
         ExposeDict [(''c.example.com:'',
           SettingsDict \<lparr>es_protocol = Some (VStr ''https''), es_path = Some (VStr ''/c''),
                         es_port = Some (VInt 8080),
                         es_ingressClassName = Some (VStr ''haproxy'')\<rparr>)]]\<rparr>"

text \<open>Entries none of which yields a rule.\<close>

definition app_unusable_expose :: app_spec where
  "app_unusable_expose = bare_app
     \<lparr>expose := Some [ExposeStr ''example.com'', ExposeDict [], ExposeOther,
                      ExposeDict [(''example.com'', SettingsOther)]]\<rparr>"

text \<open>
  A model with two violations: the sidecar of the first app reads a secret that is not
  external, and the second app mounts a config that does not exist.
\<close>

definition unchecked_model :: compose_model where
  "unchecked_model =
     \<lparr>apps =
        [(''web'', bare_app
            \<lparr>envFrom := Some [EnvConfig ''settings''],
             sidecars := Some [(''logger'', bare_cfg\<lparr>envFrom := Some [EnvSecret ''token'']\<rparr>)]\<rparr>),
         (''api'', bare_app
            \<lparr>volumesFrom := Some [\<lparr>vf_config = Some ''missing'', vf_mountPath = None\<rparr>]\<rparr>)],
      model_volumes = None,
      configs = Some [(''settings'', \<lparr>cs_external = None, cs_data = Some [(''mode'', ''prod'')]\<rparr>)],
      secrets = None\<rparr>"

text \<open>An app that references the config with the empty name; no config is declared.\<close>

definition empty_name_model :: compose_model where
  "empty_name_model =
     \<lparr>apps =
        [(''web'', bare_app
            \<lparr>envFrom := Some [EnvConfig []],
             volumesFrom := Some [\<lparr>vf_config = Some [], vf_mountPath = None\<rparr>]\<rparr>)],
      model_volumes = None, configs = None, secrets = None\<rparr>"

text \<open>Manifests and cluster states for the resource manager.\<close>

definition data_pvc :: pvc where
  "data_pvc = generate_pvc ''default'' ''data'' \<lparr>vs_size = None\<rparr>"

definition settings_configmap :: configmap where
  "settings_configmap =
     \<lparr>cm_name = ''config-settings'', cm_namespace = ''default'', cm_data = [(''mode'', ''prod'')]\<rparr>"


definition pvc_first_bundle :: resource_bundle where
  "pvc_first_bundle =
     [(''pvcs'', [PVCM data_pvc]), (''configmaps'', [ConfigMapM settings_configmap])]"





text \<open>A bundle that holds the same ConfigMap twice.\<close>

definition repeated_bundle :: resource_bundle where
  "repeated_bundle =
     [(''configmaps'', [ConfigMapM settings_configmap, ConfigMapM settings_configmap])]"

text \<open>The bundle generated for the model with two apps and one inline config.\<close>

definition two_apps_bundle :: resource_bundle where
  "two_apps_bundle =
     (case snd (generate_all urlparse_plain ''default'' two_apps_model) of
        Inr b \<Rightarrow> b
      | Inl e \<Rightarrow> [])"

section \<open>Evaluation rules for concrete inputs\<close>

lemmas string_eval =
  show_nat.simps show_int_def digit_char_def digit_val_def is_digit_def is_space_def strip_def
  parse_unsigned_def py_int_str_def upper_def upper_char_def

lemmas service_eval =
  convert_service_ports_def List.map_filter_def nonempty_def needs_service_def
  generate_sidecar_services_def sidecar_service_def sidecar_port_def
  main_service_def default_service_def lb_service_def ingress_service_def
  default_tier_def lb_tier_def service_generate_def List.enumerate_eq_zip

section \<open>Service generator: the main app's services\<close>

lemma generate_sidecar_services_error:
  "generate_sidecar_services ns app sn cfg = Inl e \<Longrightarrow> e = AttributeError"
proof -
  have a: "any_external_port ps = Inl e' \<Longrightarrow> e' = AttributeError" for ps e'
  proof (induction ps)
    case Nil then show ?case by simp
  next
    case (Cons p ps)
    then show ?case by (cases p) (auto split: if_splits)
  qed
  assume "generate_sidecar_services ns app sn cfg = Inl e"
  then show ?thesis
    by (auto simp: generate_sidecar_services_def Let_def split: option.splits if_splits sum.splits dest: a)
qed

lemma sidecars_services_error:
  "sidecars_services ns name scs = Inl e \<Longrightarrow> e = AttributeError"
proof (induction scs)
  case Nil then show ?case by simp
next
  case (Cons sc scs)
  obtain sn cfg where sc: "sc = (sn, cfg)" by (cases sc)
  from Cons show ?case unfolding sc
    by (auto split: if_splits sum.splits dest: generate_sidecar_services_error)
qed

text \<open>
  Claim C1 on \<open>ports: ["80"]\<close>, a list that is not empty. The entry has no colon, so
  the service-port conversion skips it and the converted list is empty;
  \<open>ServiceGenerator.generate\<close> then indexes that list at 0 and raises \<open>IndexError\<close>
  instead of producing the default Service. On the same entry the container-port
  conversion yields port 80, and the sidecar path of the same generator returns a
  Service with an empty port list.
\<close>

theorem service_generate_bare_port_raises:
  "ports app_bare_port = Some [PortStr ''80'']
   \<and> convert_service_ports [PortStr ''80''] = []
   \<and> service_generate ''default'' ''web'' app_bare_port = Inl IndexError
   \<and> convert_ports up [PortStr ''80''] = [\<lparr>containerPort = 80, protocol = ''TCP''\<rparr>]
   \<and> generate_sidecar_services ''default'' ''web'' ''metrics''
         (bare_cfg\<lparr>ports := Some [PortStr ''80'']\<rparr>)
       = Inr [\<lparr>svc_name = ''web-metrics'', svc_namespace = ''default'',
               svc_labels = [(''app'', ''web''), (''component'', ''sidecar-metrics'')],
               svc_type = ''ClusterIP'', svc_ports = [],
               svc_selector = [(''app'', ''web''), (''component'', ''sidecar-metrics'')]\<rparr>]"
  by (simp add: app_bare_port_def bare_app_def bare_cfg_def string_eval service_eval
        convert_ports_def startswith_def)

text \<open>
  Claim C10. For an app whose \<open>ports\<close> list is not empty, \<open>ServiceGenerator.generate\<close>
  raises instead of skipping: when no entry converts to a service port, indexing the
  converted list at 0 raises \<open>IndexError\<close>; when two or more entries were declared and
  fewer than two convert, the call raises too (\<open>IndexError\<close> from index 1, unless a
  sidecar's port check raised \<open>AttributeError\<close> before).
\<close>

theorem service_generate_raises:
  assumes "ports cfg = Some raw" and "raw \<noteq> []"
  shows "(convert_service_ports raw = [] \<longrightarrow> service_generate ns name cfg = Inl IndexError)
       \<and> (2 \<le> length raw \<and> length (convert_service_ports raw) < 2 \<longrightarrow>
            service_generate ns name cfg = Inl IndexError
          \<or> service_generate ns name cfg = Inl AttributeError)"
proof (intro conjI impI)
  assume "convert_service_ports raw = []"
  then show "service_generate ns name cfg = Inl IndexError"
    using assms by (simp add: service_generate_def default_tier_def nonempty_def)
next
  assume h: "2 \<le> length raw \<and> length (convert_service_ports raw) < 2"
  then have lb: "lb_tier ns name (ports cfg) = Inl IndexError"
    using assms by (cases "convert_service_ports raw"; cases "tl (convert_service_ports raw)")
      (auto simp: lb_tier_def nonempty_def)
  have "default_tier ns name (ports cfg) = Inl IndexError \<or> (\<exists>s. default_tier ns name (ports cfg) = Inr s)"
    using assms by (auto simp: default_tier_def nonempty_def split: list.splits)
  then show "service_generate ns name cfg = Inl IndexError
          \<or> service_generate ns name cfg = Inl AttributeError"
    using lb by (auto simp: service_generate_def split: sum.splits dest: sidecars_services_error)
qed

theorem service_generate_raises_witness:
  "service_generate ''default'' ''web'' app_malformed_ports = Inl IndexError
   \<and> convert_service_ports [PortStr ''8080:80'', PortStr ''https''] =
        [\<lparr>sp_name = ''port-8080'', sp_port = 8080, sp_targetPort = 80, sp_protocol = ''TCP''\<rparr>]
   \<and> (service_generate ''default'' ''web'' app_second_port_malformed = Inl IndexError
      \<or> service_generate ''default'' ''web'' app_second_port_malformed = Inl AttributeError)"
proof -
  have a1: "ports app_malformed_ports = Some [PortStr ''abc'', PortOther]"
    by (simp add: app_malformed_ports_def bare_app_def)
  have a2: "convert_service_ports [PortStr ''abc'', PortOther] = []"
    by (simp add: string_eval service_eval)
  have b1: "ports app_second_port_malformed = Some [PortStr ''8080:80'', PortStr ''https'']"
    by (simp add: app_second_port_malformed_def bare_app_def)
  have b2: "convert_service_ports [PortStr ''8080:80'', PortStr ''https''] =
        [\<lparr>sp_name = ''port-8080'', sp_port = 8080, sp_targetPort = 80, sp_protocol = ''TCP''\<rparr>]"
    by (simp add: string_eval service_eval)
  from service_generate_raises [OF a1, of "''default''" "''web''"]
       service_generate_raises [OF b1, of "''default''" "''web''"]
  show ?thesis unfolding a2 b2 by simp
qed

section \<open>Volume names shared by the deployment and volume generators\<close>

lemma split_on_not_Nil: "split_on c s \<noteq> []"
  by (induction s) (auto split: list.splits)

lemma split_on_two:
  "c \<in> set s \<Longrightarrow> \<exists>a b r. split_on c s = a # b # r"
proof (induction s)
  case Nil then show ?case by simp
next
  case (Cons x xs)
  show ?case
  proof (cases "x = c")
    case True
    obtain p ps where "split_on c xs = p # ps"
      using split_on_not_Nil[of c xs] by (cases "split_on c xs") auto
    with True show ?thesis by simp
  next
    case False
    with Cons.prems have "c \<in> set xs" by simp
    from Cons.IH[OF this] obtain a b r where "split_on c xs = a # b # r" by blast
    with False show ?thesis by simp
  qed
qed

lemma positional_names_agree:
  "map_option vm_name (positional_mount name p) = map_option vol_name (positional_volume name p)"
proof -
  obtain i v where p: "p = (i, v)" by (cases p)
  show ?thesis unfolding p
    by (cases v) (auto simp: Let_def split: list.splits)
qed

lemma map_map_filter_cong:
  "(\<And>x. x \<in> set xs \<Longrightarrow> map_option f (g x) = map_option f' (g' x)) \<Longrightarrow>
   map f (List.map_filter g xs) = map f' (List.map_filter g' xs)"
proof (induction xs)
  case Nil then show ?case by (simp add: List.map_filter_simps)
next
  case (Cons x xs)
  then have "map_option f (g x) = map_option f' (g' x)" by simp
  moreover have "map f (List.map_filter g xs) = map f' (List.map_filter g' xs)"
    using Cons by simp
  ultimately show ?case
    by (cases "g x"; cases "g' x") (auto simp: List.map_filter_simps)
qed

lemma config_names_agree:
  "map_option vm_name (config_mount v) = map_option vol_name (config_volume v)"
  by (simp add: config_mount_def config_volume_def split: option.splits)

lemma volume_names_split:
  "vol_name ` set (generate_container_volumes n cfg) = config_names cfg \<union> positional_names n cfg"
  by (auto simp: generate_container_volumes_def config_names_def positional_names_def split: option.splits)

lemma mount_names_split:
  "vm_name ` set (c_volumeMounts (create_container up n cfg)) = config_names cfg \<union> positional_names n cfg"
proof -
  have a: "vm_name ` set (convert_volume_mounts n vs)
         = vol_name ` set (List.map_filter (positional_volume n) (List.enumerate 0 vs))" for vs
    unfolding convert_volume_mounts_def
    using map_map_filter_cong[of "List.enumerate 0 vs" vm_name "positional_mount n" vol_name "positional_volume n"]
    by (metis list.set_map positional_names_agree)
  have b: "vm_name ` set (convert_volumes_from vfs) = vol_name ` set (List.map_filter config_volume vfs)" for vfs
    unfolding convert_volumes_from_def
    using map_map_filter_cong[of vfs vm_name config_mount vol_name config_volume]
    by (metis list.set_map config_names_agree)
  have e: "convert_volume_mounts n [] = []"
    by (simp add: convert_volume_mounts_def List.map_filter_simps)
  show ?thesis
    by (auto simp: create_container_def config_names_def positional_names_def a b e image_Un split: option.splits)
qed

lemma unique_volumes_names:
  "vol_name ` set (unique_volumes seen vs) = vol_name ` set vs - seen"
  by (induction vs arbitrary: seen) auto

lemma sidecar_volumes_names:
  "(sn, sc) \<in> set scs \<Longrightarrow>
   vol_name ` set (generate_container_volumes (n @ ''-'' @ sn) (inherit_volumes cfg sc))
     \<subseteq> vol_name ` set (fst (sidecar_volumes n cfg scs))"
proof (induction scs)
  case Nil then show ?case by simp
next
  case (Cons a scs)
  obtain an ac where a: "a = (an, ac)" by (cases a)
  from Cons show ?case unfolding a by (auto simp: Let_def)
qed

lemma merged_names:
  "config_names (merge_sidecar_config cfg sc) \<subseteq> config_names sc \<union> config_names cfg"
  "positional_names nm (merge_sidecar_config cfg sc) = positional_names nm (inherit_volumes cfg sc)"
  "config_names (inherit_volumes cfg sc) = config_names sc"
  by (auto simp: merge_sidecar_config_def inherit_volumes_def config_names_def positional_names_def)

lemma deployment_mounts_have_volumes:
  assumes "d \<in> set (ar_deployments (fst (deployment_generate up ns name cfg cm)))"
    and "c \<in> set (dep_containers d)" and "m \<in> set (c_volumeMounts c)"
  shows "vm_name m \<in> vol_name ` set (dep_volumes d)"
proof -
  define scs where "scs = (case sidecars cfg of None \<Rightarrow> [] | Some scs \<Rightarrow> scs)"
  let ?main = "generate_container_volumes name cfg"
  have d: "dep_containers d = create_container up name cfg #
             map (\<lambda>sc. create_container up (name @ ''-'' @ fst sc) (merge_sidecar_config cfg (snd sc))) scs"
    and dv: "dep_volumes d = fst (generate_volumes name cfg)"
    using assms(1) by (auto simp: deployment_generate_def Let_def scs_def)
  have vols: "vol_name ` set (dep_volumes d) =
      vol_name ` set ?main \<union> vol_name ` set (fst (sidecar_volumes name cfg scs))"
    unfolding dv scs_def
    by (auto simp: generate_volumes_def Let_def unique_volumes_names split: option.splits)
  from assms(2) have "c = create_container up name cfg
      \<or> (\<exists>sn sc. (sn, sc) \<in> set scs
            \<and> c = create_container up (name @ ''-'' @ sn) (merge_sidecar_config cfg sc))"
    unfolding d by fastforce
  then consider "c = create_container up name cfg"
    | sn sc where "(sn, sc) \<in> set scs"
        "c = create_container up (name @ ''-'' @ sn) (merge_sidecar_config cfg sc)"
    by blast
  then show ?thesis
  proof cases
    case 1
    with assms(3) have "vm_name m \<in> vm_name ` set (c_volumeMounts (create_container up name cfg))" by blast
    then show ?thesis unfolding vols mount_names_split volume_names_split by blast
  next
    case 2
    with assms(3) have "vm_name m \<in> vm_name ` set (c_volumeMounts
        (create_container up (name @ ''-'' @ sn) (merge_sidecar_config cfg sc)))" by blast
    then have "vm_name m \<in> config_names (merge_sidecar_config cfg sc)
                 \<union> positional_names (name @ ''-'' @ sn) (merge_sidecar_config cfg sc)"
      unfolding mount_names_split .
    then have "vm_name m \<in> config_names cfg \<union>
        (config_names (inherit_volumes cfg sc) \<union> positional_names (name @ ''-'' @ sn) (inherit_volumes cfg sc))"
      using merged_names[where cfg=cfg and sc=sc] by blast
    then have "vm_name m \<in> vol_name ` set ?main \<union>
        vol_name ` set (generate_container_volumes (name @ ''-'' @ sn) (inherit_volumes cfg sc))"
      unfolding volume_names_split by blast
    then show ?thesis unfolding vols using sidecar_volumes_names[OF 2(1), where n=name and cfg=cfg] by blast
  qed
qed

lemmas deployment_eval =
  generate_container_volumes_def config_volume_def inherit_volumes_def generate_volumes_def
  convert_volume_mounts_def config_mount_def convert_volumes_from_def create_container_def
  merge_sidecar_config_def inline_configmap_def deployment_generate_def convert_ports_def
  convert_environment_def startswith_def List.map_filter_def List.enumerate_eq_zip Let_def

lemmas generator_eval =
  needs_service_def nonempty_def to_bundle_def generate_all_resources_def generate_all_def
  generate_pvc_def

lemma in_set_map_filter:
  "x \<in> set xs \<Longrightarrow> f x = Some y \<Longrightarrow> y \<in> set (List.map_filter f xs)"
  by (auto simp: List.map_filter_def intro!: image_eqI[where x=x])

text \<open>
  Claim C4. For every owner name \<open>N\<close> and every \<open>volumes\<close> entry at index \<open>i\<close> of the
  form \<open>source:mountPath\<close>, the deployment generator's mount and the volume generator's
  volume for that entry both exist, the mount is named \<open>vol-N-i\<close>, and the volume has
  the same name. And in every generated Deployment, every volume mount of every
  container has the name of a volume of the Deployment's pod-level volume list.
\<close>

theorem volume_mount_names_match:
  assumes "volumes cfg = Some vols" and "i < length vols" and "vols ! i = VolStr s"
    and "CHR '':'' \<in> set s"
  shows "(\<exists>m v. positional_mount N (i, vols ! i) = Some m
            \<and> positional_volume N (i, vols ! i) = Some v
            \<and> vm_name m = ''vol-'' @ N @ ''-'' @ show_nat i
            \<and> vol_name v = vm_name m
            \<and> m \<in> set (c_volumeMounts (create_container up N cfg))
            \<and> v \<in> set (generate_container_volumes N cfg))
       \<and> (\<forall>d \<in> set (ar_deployments (fst (deployment_generate up ns name app cm))).
            \<forall>c \<in> set (dep_containers d). \<forall>m \<in> set (c_volumeMounts c).
              vm_name m \<in> vol_name ` set (dep_volumes d))"
proof
  from split_on_two[OF assms(4)] obtain a b r where sp: "split_on CHR '':'' s = a # b # r"
    by blast
  obtain m where m: "positional_mount N (i, vols ! i) = Some m"
    and mn: "vm_name m = ''vol-'' @ N @ ''-'' @ show_nat i"
    using sp assms(3) by simp
  obtain v where v: "positional_volume N (i, vols ! i) = Some v"
    and vn: "vol_name v = ''vol-'' @ N @ ''-'' @ show_nat i"
    using sp assms(3) by (cases "startswith a ''/''") (simp_all add: Let_def)
  have mem: "(i, vols ! i) \<in> set (List.enumerate 0 vols)"
    using assms(2) by (simp add: in_set_enumerate_eq)
  have "m \<in> set (convert_volume_mounts N vols)"
    unfolding convert_volume_mounts_def
    using in_set_map_filter[where f="positional_mount N", OF mem m] .
  then have m_in: "m \<in> set (c_volumeMounts (create_container up N cfg))"
    using assms(1) by (simp add: create_container_def)
  have "v \<in> set (List.map_filter (positional_volume N) (List.enumerate 0 vols))"
    using in_set_map_filter[where f="positional_volume N", OF mem v] .
  then have v_in: "v \<in> set (generate_container_volumes N cfg)"
    using assms(1) by (simp add: generate_container_volumes_def)
  show "\<exists>m v. positional_mount N (i, vols ! i) = Some m
            \<and> positional_volume N (i, vols ! i) = Some v
            \<and> vm_name m = ''vol-'' @ N @ ''-'' @ show_nat i
            \<and> vol_name v = vm_name m
            \<and> m \<in> set (c_volumeMounts (create_container up N cfg))
            \<and> v \<in> set (generate_container_volumes N cfg)"
    using m v mn vn m_in v_in by auto
next
  show "\<forall>d \<in> set (ar_deployments (fst (deployment_generate up ns name app cm))).
            \<forall>c \<in> set (dep_containers d). \<forall>m \<in> set (c_volumeMounts c).
              vm_name m \<in> vol_name ` set (dep_volumes d)"
    using deployment_mounts_have_volumes by blast
qed

theorem volume_mount_names_match_witness:
  "volumes volumes_app = Some [VolStr ''/host/path:/container/path'']
   \<and> (\<exists>m v. positional_mount ''whoami'' (0, VolStr ''/host/path:/container/path'') = Some m
            \<and> positional_volume ''whoami'' (0, VolStr ''/host/path:/container/path'') = Some v
            \<and> vm_name m = ''vol-whoami-0''
            \<and> vol_name v = vm_name m
            \<and> m \<in> set (c_volumeMounts (create_container urlparse_plain ''whoami'' volumes_app))
            \<and> v \<in> set (generate_container_volumes ''whoami'' volumes_app))
   \<and> map (\<lambda>d. map (\<lambda>c. map vm_name (c_volumeMounts c)) (dep_containers d))
         (ar_deployments (fst (deployment_generate urlparse_plain ''default'' ''whoami''
                                 volumes_app volumes_model)))
       = [[[''vol-whoami-0''], [''vol-whoami-logger-0'']]]
   \<and> map (\<lambda>d. map vol_name (dep_volumes d))
         (ar_deployments (fst (deployment_generate urlparse_plain ''default'' ''whoami''
                                 volumes_app volumes_model)))
       = [[''vol-whoami-0'', ''vol-whoami-logger-0'']]"
proof -
  let ?vols = "[VolStr ''/host/path:/container/path'']"
  have h1: "volumes volumes_app = Some ?vols"
    by (simp add: volumes_app_def bare_app_def)
  have h2: "0 < length ?vols" by simp
  have h3: "?vols ! 0 = VolStr ''/host/path:/container/path''" by simp
  have h4: "CHR '':'' \<in> set ''/host/path:/container/path''" by simp
  have sn: "show_nat 0 = ''0''" by (simp add: string_eval)
  have d: "map (\<lambda>d. map (\<lambda>c. map vm_name (c_volumeMounts c)) (dep_containers d))
         (ar_deployments (fst (deployment_generate urlparse_plain ''default'' ''whoami''
                                 volumes_app volumes_model)))
       = [[[''vol-whoami-0''], [''vol-whoami-logger-0'']]]
   \<and> map (\<lambda>d. map vol_name (dep_volumes d))
         (ar_deployments (fst (deployment_generate urlparse_plain ''default'' ''whoami''
                                 volumes_app volumes_model)))
       = [[''vol-whoami-0'', ''vol-whoami-logger-0'']]"
    by (simp add: volumes_app_def volumes_model_def bare_app_def bare_cfg_def deployment_eval
          string_eval)
  from volume_mount_names_match [OF h1 h2 h3 h4, of "''whoami''" urlparse_plain "''default''"
      "''whoami''" volumes_app volumes_model]
  show ?thesis using h1 d by (simp add: sn)
qed

section \<open>Deduplicated volumes\<close>

lemma distinct_unique_volumes: "distinct (map vol_name (unique_volumes seen vs))"
proof (induction vs arbitrary: seen)
  case Nil then show ?case by simp
next
  case (Cons v vs)
  have "vol_name v \<notin> vol_name ` set (unique_volumes (insert (vol_name v) seen) vs)"
    unfolding unique_volumes_names by simp
  with Cons show ?case by simp
qed

lemma filter_length_one:
  "distinct (map f xs) \<Longrightarrow> y \<in> f ` set xs \<Longrightarrow> length (filter (\<lambda>x. f x = y) xs) = 1"
proof (induction xs)
  case Nil then show ?case by simp
next
  case (Cons x xs)
  show ?case
  proof (cases "f x = y")
    case True
    with Cons.prems(1) have "y \<notin> f ` set xs" by simp
    then have "filter (\<lambda>x. f x = y) xs = []"
      unfolding filter_empty_conv by blast
    with True show ?thesis by simp
  next
    case False
    with Cons show ?thesis by auto
  qed
qed

text \<open>
  Claim C5, as the code has it. Take an app that declares a \<open>volumes\<close> list and a
  sidecar of it that declares none, so that the sidecar inherits the list. For every
  inherited entry of the form \<open>source:mountPath\<close>, at index \<open>i\<close>, \<open>generate_volumes\<close>
  returns exactly one volume definition named \<open>vol-{app}-{i}\<close> and exactly one named
  \<open>vol-{app}-{sidecar}-{i}\<close>: two definitions under two different names, not one. The
  output is deduplicated by volume name: no two of its definitions share a name.
\<close>

theorem generate_volumes_one_per_owner:
  assumes "volumes cfg = Some vs" and "sidecars cfg = Some scs" and "(sn, sc) \<in> set scs"
    and "volumes sc = None" and "i < length vs" and "vs ! i = VolStr s" and "CHR '':'' \<in> set s"
  shows "distinct (map vol_name (fst (generate_volumes name cfg)))
       \<and> length (filter (\<lambda>v. vol_name v = ''vol-'' @ name @ ''-'' @ show_nat i)
                   (fst (generate_volumes name cfg))) = 1
       \<and> length (filter (\<lambda>v. vol_name v = ''vol-'' @ name @ ''-'' @ sn @ ''-'' @ show_nat i)
                   (fst (generate_volumes name cfg))) = 1
       \<and> ''vol-'' @ name @ ''-'' @ show_nat i \<noteq> ''vol-'' @ name @ ''-'' @ sn @ ''-'' @ show_nat i"
proof -
  let ?out = "fst (generate_volumes name cfg)"
  have out: "?out = unique_volumes {} (generate_container_volumes name cfg
                                        @ fst (sidecar_volumes name cfg scs))"
    using assms(2) by (simp add: generate_volumes_def Let_def)
  have dist: "distinct (map vol_name ?out)"
    unfolding out by (rule distinct_unique_volumes)
  have names: "vol_name ` set ?out = vol_name ` set (generate_container_volumes name cfg)
                 \<union> vol_name ` set (fst (sidecar_volumes name cfg scs))"
    unfolding out by (simp add: unique_volumes_names image_Un)
  have pos: "''vol-'' @ N @ ''-'' @ show_nat i \<in> positional_names N c"
    if "volumes c = Some vs" for N and c :: "'b container_cfg_scheme"
  proof -
    from split_on_two[OF assms(7)] obtain a b r where sp: "split_on CHR '':'' s = a # b # r"
      by blast
    obtain v where v: "positional_volume N (i, vs ! i) = Some v"
      and vn: "vol_name v = ''vol-'' @ N @ ''-'' @ show_nat i"
      using sp assms(6) by (cases "startswith a ''/''") (simp_all add: Let_def)
    have mem: "(i, vs ! i) \<in> set (List.enumerate 0 vs)"
      using assms(5) by (simp add: in_set_enumerate_eq)
    have "v \<in> set (List.map_filter (positional_volume N) (List.enumerate 0 vs))"
      using in_set_map_filter[where f="positional_volume N", OF mem v] .
    then show ?thesis using that vn unfolding positional_names_def by force
  qed
  have main: "''vol-'' @ name @ ''-'' @ show_nat i \<in> vol_name ` set ?out"
    unfolding names volume_names_split using pos[OF assms(1)] by blast
  have "volumes (inherit_volumes cfg sc) = Some vs"
    using assms(1,4) by (simp add: inherit_volumes_def)
  from pos[OF this, of "name @ ''-'' @ sn"]
  have "''vol-'' @ name @ ''-'' @ sn @ ''-'' @ show_nat i
          \<in> vol_name ` set (generate_container_volumes (name @ ''-'' @ sn) (inherit_volumes cfg sc))"
    unfolding volume_names_split by simp
  then have side: "''vol-'' @ name @ ''-'' @ sn @ ''-'' @ show_nat i \<in> vol_name ` set ?out"
    unfolding names using sidecar_volumes_names[OF assms(3), where n=name and cfg=cfg] by blast
  have neq: "''vol-'' @ name @ ''-'' @ show_nat i \<noteq> ''vol-'' @ name @ ''-'' @ sn @ ''-'' @ show_nat i"
  proof
    assume "''vol-'' @ name @ ''-'' @ show_nat i = ''vol-'' @ name @ ''-'' @ sn @ ''-'' @ show_nat i"
    then have "length (show_nat i) = length (sn @ ''-'' @ show_nat i)" by simp
    then show False by simp
  qed
  show ?thesis
    using dist filter_length_one[OF dist main] filter_length_one[OF dist side] neq by blast
qed

theorem generate_volumes_one_per_owner_witness:
  "volumes volumes_app = Some [VolStr ''/host/path:/container/path'']
   \<and> sidecars volumes_app = Some [(''logger'', bare_cfg\<lparr>image_of := ''fluentd''\<rparr>)]
   \<and> volumes (bare_cfg\<lparr>image_of := ''fluentd''\<rparr>) = None
   \<and> distinct (map vol_name (fst (generate_volumes ''whoami'' volumes_app)))
   \<and> length (filter (\<lambda>v. vol_name v = ''vol-whoami-0'')
               (fst (generate_volumes ''whoami'' volumes_app))) = 1
   \<and> length (filter (\<lambda>v. vol_name v = ''vol-whoami-logger-0'')
               (fst (generate_volumes ''whoami'' volumes_app))) = 1"
proof -
  let ?vs = "[VolStr ''/host/path:/container/path'']"
  let ?sc = "bare_cfg\<lparr>image_of := ''fluentd''\<rparr>"
  have h1: "volumes volumes_app = Some ?vs"
    and h2: "sidecars volumes_app = Some [(''logger'', ?sc)]"
    by (simp_all add: volumes_app_def bare_app_def)
  have h3: "(''logger'', ?sc) \<in> set [(''logger'', ?sc)]" by simp
  have h4: "volumes ?sc = None" by (simp add: bare_cfg_def)
  have h5: "0 < length ?vs" and h6: "?vs ! 0 = VolStr ''/host/path:/container/path''"
    and h7: "CHR '':'' \<in> set ''/host/path:/container/path''" by simp_all
  have sn: "show_nat 0 = ''0''" by (simp add: string_eval)
  from generate_volumes_one_per_owner [OF h1 h2 h3 h4 h5 h6 h7, of "''whoami''"]
  show ?thesis using h1 h2 h4 by (simp add: sn)
qed

text \<open>
  Claim C5, as stated, fails on the app of the volume test: one inherited entry, two
  volume definitions.
\<close>

theorem generate_volumes_inherited_counterexample:
  "volumes volumes_app = Some [VolStr ''/host/path:/container/path'']
   \<and> sidecars volumes_app = Some [(''logger'', bare_cfg\<lparr>image_of := ''fluentd''\<rparr>)]
   \<and> fst (generate_volumes ''whoami'' volumes_app) =
       [\<lparr>vol_name = ''vol-whoami-0'', vol_source = HostPathSource ''/host/path'' ''Directory''\<rparr>,
        \<lparr>vol_name = ''vol-whoami-logger-0'',
          vol_source = HostPathSource ''/host/path'' ''Directory''\<rparr>]"
  by (simp add: volumes_app_def bare_app_def bare_cfg_def deployment_eval string_eval)

section \<open>The generated bundle\<close>

text \<open>
  Claim C6 on a model with two apps and one inline config: the pass returns the
  ConfigMap \<open>config-settings\<close> twice, once per app, and one Deployment per app.
\<close>

theorem generate_all_repeats_configmaps:
  "map fst (apps two_apps_model) = [''web'', ''api'']
   \<and> map fst (the (configs two_apps_model)) = [''settings'']
   \<and> (\<exists>res. snd (generate_all_resources urlparse_plain ''default'' two_apps_model) = Inr res
         \<and> map cm_name (r_configmaps res) = [''config-settings'', ''config-settings'']
         \<and> map dep_name (r_deployments res) = [''web'', ''api''])"
  by (simp add: two_apps_model_def bare_app_def deployment_eval generator_eval string_eval)

text \<open>
  Claim C9 on the app of the volume test: before the pass the sidecar has no
  \<open>volumes\<close> key; after it the sidecar holds the app's list, so the model the pass
  leaves differs from the model it was given.
\<close>

theorem generate_all_mutates_sidecar:
  "map (\<lambda>a. map_option (map (\<lambda>sc. volumes (snd sc))) (sidecars (snd a))) (apps volumes_model)
     = [Some [None]]
   \<and> map (\<lambda>a. map_option (map (\<lambda>sc. volumes (snd sc))) (sidecars (snd a)))
         (apps (fst (generate_all urlparse_plain ''default'' volumes_model)))
     = [Some [Some [VolStr ''/host/path:/container/path'']]]
   \<and> fst (generate_all urlparse_plain ''default'' volumes_model) \<noteq> volumes_model"
proof -
  have a: "map (\<lambda>a. map_option (map (\<lambda>sc. volumes (snd sc))) (sidecars (snd a))) (apps volumes_model)
     = [Some [None]]"
    by (simp add: volumes_model_def volumes_app_def bare_app_def bare_cfg_def)
  have b: "map (\<lambda>a. map_option (map (\<lambda>sc. volumes (snd sc))) (sidecars (snd a)))
         (apps (fst (generate_all urlparse_plain ''default'' volumes_model)))
     = [Some [Some [VolStr ''/host/path:/container/path'']]]"
    by (simp add: volumes_model_def volumes_app_def bare_app_def bare_cfg_def
          deployment_eval generator_eval string_eval)
  from a b have "fst (generate_all urlparse_plain ''default'' volumes_model) \<noteq> volumes_model"
    by auto
  with a b show ?thesis by blast
qed


section \<open>Ingress generator\<close>

lemmas ingress_eval =
  ingress_generate_def append_rule_def rstrip_colon_def startswith_def class_values_def
  List.map_filter_def urlparse_plain_def Let_def

lemma append_rule_class [simp]: "st_class (append_rule name st) = st_class st"
  by (simp add: append_rule_def split: option.splits prod.splits)

lemma expose_items_class:
  "st_class (expose_items items st) =
     (if entry_classes (ExposeDict items) = [] then st_class st
      else last (entry_classes (ExposeDict items)))"
proof (induction items arbitrary: st)
  case Nil then show ?case by (simp add: List.map_filter_simps)
next
  case (Cons kv items)
  obtain d sv where kv: "kv = (d, sv)" by (cases kv)
  show ?case
  proof (cases sv)
    case SettingsOther
    with Cons show ?thesis unfolding kv by (simp add: List.map_filter_simps)
  next
    case (SettingsDict settings)
    with Cons show ?thesis unfolding kv
      by (cases "es_ingressClassName settings") (simp_all add: List.map_filter_simps)
  qed
qed

lemma expose_step_class:
  "st_class (expose_step up name st e) =
     (if entry_classes e = [] then st_class st else last (entry_classes e))"
proof (cases e)
  case (ExposeStr s)
  then show ?thesis by (simp split: option.splits)
next
  case (ExposeDict items)
  show ?thesis
  proof (cases "items = []")
    case True
    with ExposeDict show ?thesis by (simp add: List.map_filter_simps)
  next
    case False
    with ExposeDict show ?thesis using expose_items_class[of items st] by simp
  qed
next
  case ExposeOther
  then show ?thesis by simp
qed

lemma foldl_expose_class:
  "st_class (foldl (expose_step up name) st es) =
     (if class_values es = [] then st_class st else last (class_values es))"
proof (induction es arbitrary: st)
  case Nil then show ?case by (simp add: class_values_def)
next
  case (Cons e es)
  show ?case
    using Cons[of "expose_step up name st e"] expose_step_class[of up name st e]
    by (simp add: class_values_def)
qed

lemma expose_items_unusable:
  "\<not> list_ex (\<lambda>kv. is_settings_dict (snd kv)) items \<Longrightarrow> expose_items items st = st"
proof (induction items)
  case Nil then show ?case by simp
next
  case (Cons kv items)
  obtain d sv where kv: "kv = (d, sv)" by (cases kv)
  from Cons show ?case unfolding kv by (cases sv) simp_all
qed

lemma expose_step_unusable:
  "\<not> usable up e \<Longrightarrow> st_cur st = None \<Longrightarrow> expose_step up name st e = st"
  by (cases e) (auto simp: expose_items_unusable append_rule_def)

lemma foldl_expose_unusable:
  "\<forall>e \<in> set es. \<not> usable up e \<Longrightarrow> st_cur st = None \<Longrightarrow>
     foldl (expose_step up name) st es = st"
  by (induction es) (simp_all add: expose_step_unusable)

lemma append_rule_rules:
  "st_rules (append_rule name st) =
     st_rules st @ (case st_cur st of
                      None \<Rightarrow> []
                    | Some c \<Rightarrow> [\<lparr>rule_host = fst c, rule_path = fst (snd c),
                                  rule_pathType = ''Prefix'', rule_service = name,
                                  rule_port = snd (snd c)\<rparr>])"
  by (simp add: append_rule_def split: option.splits prod.splits)

lemma expose_items_rules [simp]: "st_rules (expose_items items st) = st_rules st"
proof (induction items arbitrary: st)
  case Nil then show ?case by simp
next
  case (Cons kv items)
  obtain d sv where kv: "kv = (d, sv)" by (cases kv)
  from Cons show ?case unfolding kv by (cases sv) simp_all
qed

lemma expose_step_rules:
  "\<exists>rs. st_rules (expose_step up name st e) = st_rules st @ rs"
  by (cases e) (simp_all add: append_rule_rules split: option.splits)

lemma foldl_expose_rules:
  "\<exists>rs. st_rules (foldl (expose_step up name) st es) = st_rules st @ rs"
proof (induction es arbitrary: st)
  case Nil then show ?case by simp
next
  case (Cons e es)
  from expose_step_rules[of up name st e] obtain r1 where
    r1: "st_rules (expose_step up name st e) = st_rules st @ r1" by blast
  from Cons[of "expose_step up name st e"] obtain r2 where
    "st_rules (foldl (expose_step up name) (expose_step up name st e) es)
       = st_rules (expose_step up name st e) @ r2" by blast
  with r1 show ?case by simp
qed

lemma expose_items_single:
  "st_cur (expose_items [(host, SettingsDict settings)] st) =
     Some (rstrip_colon host,
           (case es_path settings of None \<Rightarrow> VStr ''/'' | Some p \<Rightarrow> p),
           (case es_port settings of None \<Rightarrow> VInt 80 | Some p \<Rightarrow> p))"
  by simp

text \<open>
  Claim C7, as the code has it. \<open>IngressGenerator.generate\<close> returns no Ingress when
  \<open>expose\<close> is absent, and none when no entry of \<open>expose\<close> yields a rule. When it
  returns an Ingress, the class name is the last \<open>ingressClassName\<close> value met while
  iterating the entries in order, \<open>traefik\<close> when no entry has one; a class name that is
  empty (falsy) is left out of the Ingress instead. A mapping-form entry with a single
  host yields a rule for that host whose path is \<open>/\<close> and whose service port is 80
  unless the entry says otherwise.
\<close>

theorem ingress_generate_class_and_defaults:
  "(expose cfg = None \<longrightarrow> ingress_generate up ns name cfg = None)
   \<and> (\<forall>es. expose cfg = Some es \<longrightarrow>
         ((\<forall>e \<in> set es. \<not> usable up e) \<longrightarrow> ingress_generate up ns name cfg = None)
       \<and> (\<forall>ing. ingress_generate up ns name cfg = Some ing \<longrightarrow>
             ing_ingressClassName ing =
               (let c = (if class_values es = [] then VStr ''traefik'' else last (class_values es))
                in if truthy c then Some c else None))
       \<and> (\<forall>host settings. ExposeDict [(host, SettingsDict settings)] \<in> set es \<longrightarrow>
             (\<exists>ing. ingress_generate up ns name cfg = Some ing
                \<and> \<lparr>rule_host = rstrip_colon host,
                    rule_path = (case es_path settings of None \<Rightarrow> VStr ''/'' | Some p \<Rightarrow> p),
                    rule_pathType = ''Prefix'', rule_service = name,
                    rule_port = (case es_port settings of None \<Rightarrow> VInt 80 | Some p \<Rightarrow> p)\<rparr>
                  \<in> set (ing_rules ing))))"
proof (intro conjI allI impI)
  show "ingress_generate up ns name cfg = None" if "expose cfg = None"
    using that by (simp add: ingress_generate_def)
next
  fix es
  assume es: "expose cfg = Some es" and un: "\<forall>e \<in> set es. \<not> usable up e"
  have "foldl (expose_step up name) \<lparr>st_rules = [], st_class = VStr ''traefik'', st_cur = None\<rparr> es
          = \<lparr>st_rules = [], st_class = VStr ''traefik'', st_cur = None\<rparr>"
    by (rule foldl_expose_unusable[OF un]) simp
  then show "ingress_generate up ns name cfg = None"
    using es by (simp add: ingress_generate_def)
next
  fix es ing
  assume es: "expose cfg = Some es" and ing: "ingress_generate up ns name cfg = Some ing"
  let ?st = "foldl (expose_step up name) \<lparr>st_rules = [], st_class = VStr ''traefik'', st_cur = None\<rparr> es"
  from es ing have "ing_ingressClassName ing = (if truthy (st_class ?st) then Some (st_class ?st) else None)"
    by (auto simp: ingress_generate_def Let_def split: if_splits)
  then show "ing_ingressClassName ing =
               (let c = (if class_values es = [] then VStr ''traefik'' else last (class_values es))
                in if truthy c then Some c else None)"
    unfolding foldl_expose_class by (simp add: Let_def)
next
  fix es host settings
  assume es: "expose cfg = Some es" and mem: "ExposeDict [(host, SettingsDict settings)] \<in> set es"
  let ?init = "\<lparr>st_rules = [], st_class = VStr ''traefik'', st_cur = None\<rparr>"
  let ?rule = "\<lparr>rule_host = rstrip_colon host,
                    rule_path = (case es_path settings of None \<Rightarrow> VStr ''/'' | Some p \<Rightarrow> p),
                    rule_pathType = ''Prefix'', rule_service = name,
                    rule_port = (case es_port settings of None \<Rightarrow> VInt 80 | Some p \<Rightarrow> p)\<rparr>"
  from mem obtain pre post where sp: "es = pre @ ExposeDict [(host, SettingsDict settings)] # post"
    by (auto simp: in_set_conv_decomp)
  let ?s1 = "foldl (expose_step up name) ?init pre"
  let ?s2 = "expose_step up name ?s1 (ExposeDict [(host, SettingsDict settings)])"
  have s2: "st_rules ?s2 = st_rules ?s1 @ [?rule]"
    by (simp add: append_rule_rules)
  from foldl_expose_rules[of up name ?s2 post] obtain rs where
    "st_rules (foldl (expose_step up name) ?s2 post) = st_rules ?s2 @ rs" by blast
  then have fin: "st_rules (foldl (expose_step up name) ?init es) = st_rules ?s1 @ [?rule] @ rs"
    unfolding sp s2 by simp
  then have "st_rules (foldl (expose_step up name) ?init es) \<noteq> []" by simp
  then obtain ing where ing: "ingress_generate up ns name cfg = Some ing"
    and rules: "ing_rules ing = st_rules (foldl (expose_step up name) ?init es)"
    using es by (simp add: ingress_generate_def Let_def)
  have "?rule \<in> set (ing_rules ing)" unfolding rules fin by simp
  with ing show "\<exists>ing. ingress_generate up ns name cfg = Some ing \<and> ?rule \<in> set (ing_rules ing)"
    by blast
qed

theorem ingress_generate_class_and_defaults_witness:
  "ingress_generate urlparse_plain ''default'' ''web'' bare_app = None
   \<and> ingress_generate urlparse_plain ''default'' ''web'' app_unusable_expose = None
   \<and> class_values (the (expose app_two_classes)) = [VStr ''nginx'', VStr ''haproxy'']
   \<and> (\<exists>ing. ingress_generate urlparse_plain ''default'' ''web'' app_two_classes = Some ing
         \<and> ing_ingressClassName ing = Some (VStr ''haproxy'')
         \<and> \<lparr>rule_host = ''a.example.com'', rule_path = VStr ''/'', rule_pathType = ''Prefix'',
             rule_service = ''web'', rule_port = VInt 80\<rparr> \<in> set (ing_rules ing))"
proof -
  note T = ingress_generate_class_and_defaults
  let ?a = "\<lparr>es_protocol = None, es_path = None, es_port = None,
             es_ingressClassName = Some (VStr ''nginx'')\<rparr>"
  have a: "ingress_generate urlparse_plain ''default'' ''web'' bare_app = None"
    using T[of bare_app urlparse_plain "''default''" "''web''"] by (simp add: bare_app_def)
  have e2: "expose app_unusable_expose = Some [ExposeStr ''example.com'', ExposeDict [], ExposeOther,
                      ExposeDict [(''example.com'', SettingsOther)]]"
    by (simp add: app_unusable_expose_def bare_app_def)
  have b: "ingress_generate urlparse_plain ''default'' ''web'' app_unusable_expose = None"
    using T[of app_unusable_expose urlparse_plain "''default''" "''web''"] e2
    by (simp add: startswith_def)
  have e3: "expose app_two_classes = Some
        [ExposeDict [(''a.example.com'', SettingsDict ?a)],
         ExposeStr ''https://b.example.com:8443/api'',
         ExposeDict [(''c.example.com:'',
           SettingsDict \<lparr>es_protocol = Some (VStr ''https''), es_path = Some (VStr ''/c''),
                         es_port = Some (VInt 8080),
                         es_ingressClassName = Some (VStr ''haproxy'')\<rparr>)]]"
    by (simp add: app_two_classes_def bare_app_def)
  have cv: "class_values (the (expose app_two_classes)) = [VStr ''nginx'', VStr ''haproxy'']"
    unfolding e3 by (simp add: class_values_def List.map_filter_def)
  have rs: "rstrip_colon ''a.example.com'' = ''a.example.com''"
    by (simp add: rstrip_colon_def)
  from T[of app_two_classes urlparse_plain "''default''" "''web''"] e3
  have c: "\<exists>ing. ingress_generate urlparse_plain ''default'' ''web'' app_two_classes = Some ing
         \<and> \<lparr>rule_host = rstrip_colon ''a.example.com'',
             rule_path = (case es_path ?a of None \<Rightarrow> VStr ''/'' | Some p \<Rightarrow> p),
             rule_pathType = ''Prefix'', rule_service = ''web'',
             rule_port = (case es_port ?a of None \<Rightarrow> VInt 80 | Some p \<Rightarrow> p)\<rparr>
           \<in> set (ing_rules ing)"
    by (metis list.set_intros(1))
  then obtain ing where i1: "ingress_generate urlparse_plain ''default'' ''web'' app_two_classes = Some ing"
    and i2: "\<lparr>rule_host = ''a.example.com'', rule_path = VStr ''/'', rule_pathType = ''Prefix'',
             rule_service = ''web'', rule_port = VInt 80\<rparr> \<in> set (ing_rules ing)"
    unfolding rs by auto
  from T[of app_two_classes urlparse_plain "''default''" "''web''"] e3 i1
  have "ing_ingressClassName ing =
               (let c = (if class_values (the (expose app_two_classes)) = [] then VStr ''traefik''
                         else last (class_values (the (expose app_two_classes))))
                in if truthy c then Some c else None)"
    by simp
  then have i3: "ing_ingressClassName ing = Some (VStr ''haproxy'')"
    unfolding cv by simp
  from a b cv i1 i2 i3 show ?thesis by blast
qed

text \<open>
  Claim C7, as stated, fails when the last \<open>ingressClassName\<close> met is the empty
  string: the Ingress is generated, and it has no class name.
\<close>

theorem ingress_generate_empty_class_counterexample:
  "class_values (the (expose app_empty_class)) = [VStr []]
   \<and> ingress_generate urlparse_plain ''default'' ''web'' app_empty_class =
       Some \<lparr>ing_name = ''web'', ing_namespace = ''default'',
             ing_rules = [\<lparr>rule_host = ''example.com'', rule_path = VStr ''/'',
                           rule_pathType = ''Prefix'', rule_service = ''web'',
                           rule_port = VInt 80\<rparr>],
             ing_ingressClassName = None\<rparr>"
  by (simp add: app_empty_class_def bare_app_def ingress_eval)

section \<open>Referential validator\<close>

lemma first_failure_append:
  "first_failure (xs @ ys) = (case first_failure xs of Inl e \<Rightarrow> Inl e | Inr _ \<Rightarrow> first_failure ys)"
  by (cases xs) (simp_all add: first_failure_def)

lemma first_failure_Nil [simp]: "first_failure [] = Inr ()"
  by (simp add: first_failure_def)

lemma validate_config_reference_violation:
  "validate_config_reference n app cfgs ec sc =
     first_failure (List.map_filter (violation cfgs ec es) [(app, sc, ConfigReference n)])"
proof (cases "map_of cfgs n")
  case None
  then have "n \<notin> fst ` set cfgs" by (simp add: map_of_eq_None_iff)
  with None show ?thesis
    by (simp add: validate_config_reference_def List.map_filter_simps first_failure_def)
next
  case (Some c)
  then have "n \<in> fst ` set cfgs" by (metis map_of_eq_None_iff option.distinct(1))
  with Some show ?thesis
    by (simp add: validate_config_reference_def List.map_filter_simps first_failure_def)
qed

lemma map_filter_Cons_append:
  "List.map_filter f (x # xs) = List.map_filter f [x] @ List.map_filter f xs"
  by (simp add: List.map_filter_simps split: option.splits)

lemma map_filter_append': "List.map_filter f (xs @ ys) = List.map_filter f xs @ List.map_filter f ys"
  by (simp add: List.map_filter_def)

lemma first_failure_Cons:
  "first_failure (List.map_filter V (x # xs)) =
     (case first_failure (List.map_filter V [x]) of
        Inl e \<Rightarrow> Inl e
      | Inr _ \<Rightarrow> first_failure (List.map_filter V xs))"
  by (subst map_filter_Cons_append) (rule first_failure_append)

lemma check_volumes_from_violation:
  "check_volumes_from app sc cfgs ec vfs =
     first_failure (List.map_filter (violation cfgs ec es)
       (map (\<lambda>r. (app, sc, r)) (List.map_filter volumes_from_reference vfs)))"
proof (induction vfs)
  case Nil then show ?case by (simp add: List.map_filter_simps)
next
  case (Cons v vfs)
  show ?case
  proof (cases "volumes_from_reference v")
    case None
    then show ?thesis using Cons
      by (auto simp del: violation.simps
               simp: volumes_from_reference_def List.map_filter_simps
               split: option.splits if_splits)
  next
    case (Some r)
    then obtain n where n: "vf_config v = Some n" "n \<noteq> []" "r = ConfigReference n"
      by (auto simp: volumes_from_reference_def split: option.splits if_splits)
    have g: "List.map_filter volumes_from_reference (v # vfs)
               = ConfigReference n # List.map_filter volumes_from_reference vfs"
      using Some n by (simp add: List.map_filter_simps)
    show ?thesis
      apply (simp only: g list.map)
      apply (subst first_failure_Cons)
      apply (simp only: validate_config_reference_violation[of n app cfgs ec sc es, symmetric])
      using n by (simp del: violation.simps add: Cons split: sum.splits)
  qed
qed

lemma check_env_from_violation:
  "check_env_from app sc cfgs ec es efs =
     first_failure (List.map_filter (violation cfgs ec es)
       (map (\<lambda>r. (app, sc, r)) (List.map_filter env_from_reference efs)))"
proof (induction efs)
  case Nil then show ?case by (simp add: List.map_filter_simps)
next
  case (Cons e efs)
  show ?case
  proof (cases e)
    case (EnvConfig n)
    show ?thesis
    proof (cases "n = []")
      case True
      with EnvConfig Cons show ?thesis
        by (simp del: violation.simps add: List.map_filter_simps)
    next
      case False
      have g: "List.map_filter env_from_reference (e # efs)
               = ConfigReference n # List.map_filter env_from_reference efs"
        using False EnvConfig by (simp add: List.map_filter_simps)
      show ?thesis
        apply (simp only: g list.map)
        apply (subst first_failure_Cons)
        apply (simp only: validate_config_reference_violation[of n app cfgs ec sc es, symmetric])
        using False EnvConfig by (simp del: violation.simps add: Cons split: sum.splits)
    qed
  next
    case (EnvSecret n)
    show ?thesis
    proof (cases "n = []")
      case True
      with EnvSecret Cons show ?thesis
        by (simp del: violation.simps add: List.map_filter_simps)
    next
      case False
      have g: "List.map_filter env_from_reference (e # efs)
               = SecretReference n # List.map_filter env_from_reference efs"
        using False EnvSecret by (simp add: List.map_filter_simps)
      have one: "first_failure (List.map_filter (violation cfgs ec es) [(app, sc, SecretReference n)])
                 = (if n \<notin> es then Inl (ValueError (secret_message app sc n)) else Inr ())"
        by (simp add: List.map_filter_simps first_failure_def)
      show ?thesis
        apply (simp only: g list.map)
        apply (subst first_failure_Cons)
        apply (simp only: one)
        using False EnvSecret by (simp del: violation.simps add: Cons split: sum.splits)
    qed
  next
    case EnvOther
    with Cons show ?thesis by (simp del: violation.simps add: List.map_filter_simps)
  qed
qed

lemma validate_container_violation:
  "validate_container app sc cfgs ec es cfg =
     first_failure (List.map_filter (violation cfgs ec es)
       (map (\<lambda>r. (app, sc, r)) (container_references cfg)))"
  unfolding validate_container_def container_references_def
    check_volumes_from_violation[where es=es] check_env_from_violation
  by (simp del: violation.simps add: map_filter_append' first_failure_append split: sum.splits)

lemma validate_sidecars_violation:
  "validate_sidecars app cfgs ec es scs =
     first_failure (List.map_filter (violation cfgs ec es)
       (concat (map (\<lambda>sc. map (\<lambda>r. (app, Some (fst sc), r)) (container_references (snd sc))) scs)))"
proof (induction scs)
  case Nil then show ?case by (simp add: List.map_filter_simps)
next
  case (Cons a scs)
  obtain sn sc where a: "a = (sn, sc)" by (cases a)
  show ?case unfolding a
    by (simp del: violation.simps
             add: Cons validate_container_violation map_filter_append' first_failure_append
             split: sum.splits)
qed

lemma validate_apps_violation:
  "validate_apps cfgs ec es as =
     first_failure (List.map_filter (violation cfgs ec es) (concat (map app_references as)))"
proof (induction as)
  case Nil then show ?case by (simp add: List.map_filter_simps)
next
  case (Cons a as)
  obtain an ac where a: "a = (an, ac)" by (cases a)
  show ?case unfolding a
    by (simp del: violation.simps
             add: Cons validate_container_violation validate_sidecars_violation app_references_def
                  map_filter_append' first_failure_append split: sum.splits)
qed

lemma map_filter_eq_Nil: "List.map_filter f xs = [] \<longleftrightarrow> (\<forall>x \<in> set xs. f x = None)"
  by (induction xs) (auto simp: List.map_filter_simps split: option.splits)


lemma contains_here: "contains (s @ post) s"
proof (cases "s @ post")
  case Nil
  then show ?thesis by simp
next
  case (Cons a l)
  have "startswith (s @ post) s" by (simp add: startswith_def)
  then have "startswith (a # l) s" unfolding Cons .
  then have "contains (a # l) s" by simp
  then show ?thesis unfolding Cons .
qed

lemma contains_mid: "contains (pre @ s @ post) s"
proof (induction pre)
  case Nil
  show ?case using contains_here[of s post] by simp
next
  case (Cons c pre)
  then show ?case by simp
qed

lemma violation_None_iff:
  "violation cfgs ec es x = None \<longleftrightarrow> \<not> violated cfgs ec es x"
proof -
  obtain app sc r where x: "x = (app, sc, r)" by (cases x)
  have "violation cfgs ec es (app, sc, r) = None \<longleftrightarrow> \<not> violated cfgs ec es (app, sc, r)"
  proof (cases r)
    case (ConfigReference n)
    show ?thesis unfolding ConfigReference
      by (cases "map_of cfgs n") (auto simp: map_of_eq_None_iff)
  next
    case (SecretReference n)
    show ?thesis unfolding SecretReference by simp
  qed
  then show ?thesis unfolding x .
qed

lemma violation_message:
  assumes "violation cfgs ec es (app, sc, r) = Some msg"
  shows "contains msg ([CHR 0x27] @ app @ [CHR 0x27])"
    and "contains msg ([CHR 0x27] @ reference_name r @ [CHR 0x27])"
    and "sc = Some sn \<Longrightarrow> sn \<noteq> [] \<Longrightarrow> contains msg ([CHR 0x27] @ sn @ [CHR 0x27])"
proof -
  let ?q = "\<lambda>s. [CHR 0x27] @ s @ [CHR 0x27]"
  have shape: "\<exists>p1 p2 p3 tail. msg = p1 @ p2 @ ?q app @ p3 @ ?q (reference_name r) @ tail
      \<and> (\<forall>sn. sc = Some sn \<and> sn \<noteq> [] \<longrightarrow> p1 = ''Sidecar '' @ ?q sn)"
  proof (cases r)
    case (ConfigReference n)
    from assms obtain tail where
      m: "msg = sidecar_prefix sc @ ''App '' @ quoted app @ '' references config '' @ quoted n @ tail"
      unfolding ConfigReference by (auto split: if_splits)
    show ?thesis
    proof (cases "\<exists>sn. sc = Some sn \<and> sn \<noteq> []")
      case True
      then obtain sn where sn: "sc = Some sn" "sn \<noteq> []" by blast
      have "msg = (''Sidecar '' @ ?q sn) @ ('' in '' @ ''App '') @ ?q app
                    @ '' references config '' @ ?q (reference_name r) @ tail"
        unfolding m ConfigReference using sn by (simp add: sidecar_prefix_def quoted_def)
      with sn show ?thesis by blast
    next
      case False
      have "msg = [] @ (sidecar_prefix sc @ ''App '') @ ?q app
                    @ '' references config '' @ ?q (reference_name r) @ tail"
        unfolding m ConfigReference by (simp add: quoted_def)
      with False show ?thesis by blast
    qed
  next
    case (SecretReference n)
    from assms have m: "msg = secret_message app sc n"
      unfolding SecretReference by (auto split: if_splits)
    show ?thesis
    proof (cases sc)
      case None
      have "msg = [] @ ''App '' @ ?q app @ '' references secret '' @ ?q (reference_name r)
                    @ '' which is not marked as external''"
        unfolding m SecretReference None by (simp add: secret_message_def quoted_def)
      with None show ?thesis by blast
    next
      case (Some sn)
      have "msg = (''Sidecar '' @ ?q sn) @ '' in app '' @ ?q app @ '' references secret ''
                    @ ?q (reference_name r) @ '' which is not marked as external''"
        unfolding m SecretReference Some by (simp add: secret_message_def quoted_def)
      with Some show ?thesis by blast
    qed
  qed
  then obtain p1 p2 p3 tail where
    msg: "msg = p1 @ p2 @ ?q app @ p3 @ ?q (reference_name r) @ tail"
    and side: "\<And>sn. sc = Some sn \<Longrightarrow> sn \<noteq> [] \<Longrightarrow> p1 = ''Sidecar '' @ ?q sn"
    by blast
  show "contains msg (?q app)"
    using contains_mid[of "p1 @ p2" "?q app" "p3 @ ?q (reference_name r) @ tail"]
    unfolding msg by simp
  show "contains msg (?q (reference_name r))"
    using contains_mid[of "p1 @ p2 @ ?q app @ p3" "?q (reference_name r)" tail]
    unfolding msg by simp
  show "contains msg (?q sn)" if "sc = Some sn" "sn \<noteq> []"
    using contains_mid[of "''Sidecar ''" "?q sn" "p2 @ ?q app @ p3 @ ?q (reference_name r) @ tail"]
    unfolding msg side[OF that] by simp
qed

lemma map_filter_violation:
  "List.map_filter (violation cfgs ec es) xs
     = map (\<lambda>x. the (violation cfgs ec es x)) (filter (violated cfgs ec es) xs)"
proof -
  have "(\<lambda>x. violation cfgs ec es x \<noteq> None) = violated cfgs ec es"
    using violation_None_iff[of cfgs ec es] by auto
  then show ?thesis by (simp add: List.map_filter_def comp_def)
qed

lemma validate_external_resources_first:
  "validate_external_resources m ec es =
     first_failure (map (\<lambda>x. the (violation (config_entries m) ec es x))
                      (filter (violated (config_entries m) ec es) (model_references m)))"
  unfolding map_filter_violation[symmetric]
  by (simp del: violation.simps
           add: validate_external_resources_def validate_apps_violation model_references_def
                config_entries_def)

text \<open>
  Claim C8, as the code has it. The references of a model are its non-empty config and
  secret names, in iteration order. When none of them is a violation the referential
  validation returns. Otherwise it raises the failure of the first violating reference:
  the message quotes the app and the offending name, and the sidecar when the
  reference is a sidecar's and the sidecar's name is not empty. So validation raises
  if and only if some reference is a violation: a config name absent from \<open>configs\<close>,
  or marked external and absent from the external-configs set, or a secret name absent
  from the external-secrets set.
\<close>

theorem validate_external_resources_fail_fast:
  "(filter (violated (config_entries m) ec es) (model_references m) = []
      \<longrightarrow> validate_external_resources m ec es = Inr ())
   \<and> (\<forall>app sc r rest.
        filter (violated (config_entries m) ec es) (model_references m) = (app, sc, r) # rest
        \<longrightarrow> (\<exists>msg. validate_external_resources m ec es = Inl (ValueError msg)
               \<and> contains msg ([CHR 0x27] @ app @ [CHR 0x27])
               \<and> contains msg ([CHR 0x27] @ reference_name r @ [CHR 0x27])
               \<and> (\<forall>sn. sc = Some sn \<and> sn \<noteq> []
                     \<longrightarrow> contains msg ([CHR 0x27] @ sn @ [CHR 0x27]))))
   \<and> ((\<exists>e. validate_external_resources m ec es = Inl e) \<longleftrightarrow>
        (\<exists>x \<in> set (model_references m). violated (config_entries m) ec es x))"
proof (intro conjI allI impI)
  assume "filter (violated (config_entries m) ec es) (model_references m) = []"
  then show "validate_external_resources m ec es = Inr ()"
    unfolding validate_external_resources_first by simp
next
  fix app sc r rest
  assume f: "filter (violated (config_entries m) ec es) (model_references m) = (app, sc, r) # rest"
  then have "(app, sc, r) \<in> set (filter (violated (config_entries m) ec es) (model_references m))"
    by simp
  then have "violated (config_entries m) ec es (app, sc, r)" by simp
  then obtain msg where msg: "violation (config_entries m) ec es (app, sc, r) = Some msg"
    using violation_None_iff[of "config_entries m" ec es "(app, sc, r)"] by auto
  have res: "validate_external_resources m ec es = Inl (ValueError msg)"
    unfolding validate_external_resources_first f using msg
    by (simp del: violation.simps violated.simps add: first_failure_def)
  from violation_message[OF msg] res
  show "\<exists>msg. validate_external_resources m ec es = Inl (ValueError msg)
               \<and> contains msg ([CHR 0x27] @ app @ [CHR 0x27])
               \<and> contains msg ([CHR 0x27] @ reference_name r @ [CHR 0x27])
               \<and> (\<forall>sn. sc = Some sn \<and> sn \<noteq> []
                     \<longrightarrow> contains msg ([CHR 0x27] @ sn @ [CHR 0x27]))"
    by blast
next
  let ?bad = "filter (violated (config_entries m) ec es) (model_references m)"
  have "(\<exists>e. validate_external_resources m ec es = Inl e) \<longleftrightarrow> ?bad \<noteq> []"
    unfolding validate_external_resources_first
    by (cases ?bad) (simp_all del: violation.simps violated.simps add: first_failure_def)
  also have "\<dots> \<longleftrightarrow> (\<exists>x \<in> set (model_references m). violated (config_entries m) ec es x)"
    by (simp del: violated.simps add: filter_empty_conv)
  finally show "(\<exists>e. validate_external_resources m ec es = Inl e) \<longleftrightarrow>
        (\<exists>x \<in> set (model_references m). violated (config_entries m) ec es x)" .
qed

lemmas validator_eval =
  model_references_def app_references_def container_references_def volumes_from_reference_def
  config_entries_def List.map_filter_def

theorem validate_external_resources_fail_fast_witness:
  "filter (violated (config_entries unchecked_model) {} {}) (model_references unchecked_model)
     = [(''web'', Some ''logger'', SecretReference ''token''),
        (''api'', None, ConfigReference ''missing'')]
   \<and> (\<exists>msg. validate_external_resources unchecked_model {} {} = Inl (ValueError msg)
         \<and> contains msg ([CHR 0x27] @ ''web'' @ [CHR 0x27])
         \<and> contains msg ([CHR 0x27] @ ''token'' @ [CHR 0x27])
         \<and> contains msg ([CHR 0x27] @ ''logger'' @ [CHR 0x27]))
   \<and> filter (violated (config_entries two_apps_model) {} {}) (model_references two_apps_model) = []
   \<and> validate_external_resources two_apps_model {} {} = Inr ()"
proof -
  have f: "filter (violated (config_entries unchecked_model) {} {}) (model_references unchecked_model)
     = [(''web'', Some ''logger'', SecretReference ''token''),
        (''api'', None, ConfigReference ''missing'')]"
    by (simp add: unchecked_model_def bare_app_def bare_cfg_def validator_eval)
  have g: "filter (violated (config_entries two_apps_model) {} {}) (model_references two_apps_model) = []"
    by (simp add: two_apps_model_def bare_app_def validator_eval)
  from validate_external_resources_fail_fast [of unchecked_model "{}" "{}"] f
  have a: "\<exists>msg. validate_external_resources unchecked_model {} {} = Inl (ValueError msg)
         \<and> contains msg ([CHR 0x27] @ ''web'' @ [CHR 0x27])
         \<and> contains msg ([CHR 0x27] @ reference_name (SecretReference ''token'') @ [CHR 0x27])
         \<and> (\<forall>sn. Some ''logger'' = Some sn \<and> sn \<noteq> []
               \<longrightarrow> contains msg ([CHR 0x27] @ sn @ [CHR 0x27]))"
    by blast
  from validate_external_resources_fail_fast [of two_apps_model "{}" "{}"] g
  have b: "validate_external_resources two_apps_model {} {} = Inr ()" by blast
  from a f g b show ?thesis by auto
qed

text \<open>
  Claim C8, as stated, fails on a model whose app references the config with the empty
  name: no config is declared, so the referenced name is absent from \<open>configs\<close>, and
  the validation returns without raising.
\<close>

theorem validate_external_resources_empty_name_counterexample:
  "map (\<lambda>a. (envFrom (snd a), volumesFrom (snd a))) (apps empty_name_model)
     = [(Some [EnvConfig []], Some [\<lparr>vf_config = Some [], vf_mountPath = None\<rparr>])]
   \<and> configs empty_name_model = None
   \<and> validate_external_resources empty_name_model {} {} = Inr ()"
  by (simp add: empty_name_model_def bare_app_def validate_external_resources_def
        validate_container_def)

section \<open>Resource manager: deletion\<close>











section \<open>Resource manager: apply\<close>

lemma apply_resource_absent:
  assumes "known_kind k" and "s (k, manifest_name m) = None"
  shows "apply_resource store_client k m s =
           (Inr (), [ReadCall k (manifest_name m), CreateCall k (manifest_name m)],
            s((k, manifest_name m) \<mapsto> m))"
  using assms by (simp add: apply_resource_def create_resource_def store_client_def Let_def)

lemma apply_resource_present:
  assumes "known_kind k" and "s (k, manifest_name m) \<noteq> None"
  shows "apply_resource store_client k m s =
           (Inr (), [ReadCall k (manifest_name m), PatchCall k (manifest_name m)],
            s((k, manifest_name m) \<mapsto> m))"
  using assms by (auto simp: apply_resource_def create_resource_def store_client_def Let_def)

lemma created_append [simp]: "created (xs @ ys) = created xs @ created ys"
  by (induction xs rule: created.induct) simp_all

lemma patched_append [simp]: "patched (xs @ ys) = patched xs @ patched ys"
  by (induction xs rule: patched.induct) simp_all

lemma apply_list_absent:
  assumes "known_kind k" and "distinct (kind_targets k ms)"
    and "set (kind_targets k ms) \<inter> dom s = {}"
  shows "\<exists>calls s'. apply_list store_client k ms s = (Inr (), calls, s')
           \<and> created calls = kind_targets k ms \<and> patched calls = []
           \<and> dom s' = dom s \<union> set (kind_targets k ms)"
  using assms(2,3)
proof (induction ms arbitrary: s)
  case Nil
  show ?case by (simp add: kind_targets_def)
next
  case (Cons m ms)
  let ?t = "(k, manifest_name m)"
  let ?s1 = "s(?t \<mapsto> m)"
  from Cons.prems have absent: "s ?t = None"
    by (auto simp: kind_targets_def)
  have step: "apply_resource store_client k m s
                = (Inr (), [ReadCall k (manifest_name m), CreateCall k (manifest_name m)], ?s1)"
    using apply_resource_absent[where k=k and m=m and s=s, OF assms(1) absent] .
  from Cons.prems have d: "distinct (kind_targets k ms)" and nt: "?t \<notin> set (kind_targets k ms)"
    by (simp_all add: kind_targets_def)
  from Cons.prems nt have disj: "set (kind_targets k ms) \<inter> dom ?s1 = {}"
    by (auto simp: kind_targets_def)
  from Cons.IH[OF d disj] obtain calls s' where
    ih: "apply_list store_client k ms ?s1 = (Inr (), calls, s')"
        "created calls = kind_targets k ms" "patched calls = []"
        "dom s' = dom ?s1 \<union> set (kind_targets k ms)"
    by blast
  have "apply_list store_client k (m # ms) s
          = (Inr (), [ReadCall k (manifest_name m), CreateCall k (manifest_name m)] @ calls, s')"
    using step ih(1) by simp
  moreover have "created ([ReadCall k (manifest_name m), CreateCall k (manifest_name m)] @ calls)
                   = kind_targets k (m # ms)"
    using ih(2) by (simp add: kind_targets_def)
  moreover have "patched ([ReadCall k (manifest_name m), CreateCall k (manifest_name m)] @ calls) = []"
    using ih(3) by simp
  moreover have "dom s' = dom s \<union> set (kind_targets k (m # ms))"
    using ih(4) by (auto simp: kind_targets_def)
  ultimately show ?case by blast
qed

lemma apply_list_present:
  assumes "known_kind k" and "set (kind_targets k ms) \<subseteq> dom s"
  shows "\<exists>calls s'. apply_list store_client k ms s = (Inr (), calls, s')
           \<and> patched calls = kind_targets k ms \<and> created calls = []
           \<and> dom s' = dom s"
  using assms(2)
proof (induction ms arbitrary: s)
  case Nil
  show ?case by (simp add: kind_targets_def)
next
  case (Cons m ms)
  let ?t = "(k, manifest_name m)"
  let ?s1 = "s(?t \<mapsto> m)"
  from Cons.prems have present: "s ?t \<noteq> None"
    by (auto simp: kind_targets_def)
  have step: "apply_resource store_client k m s
                = (Inr (), [ReadCall k (manifest_name m), PatchCall k (manifest_name m)], ?s1)"
    using apply_resource_present[where k=k and m=m and s=s, OF assms(1) present] .
  from present have dom1: "dom ?s1 = dom s" by auto
  from Cons.prems have sub: "set (kind_targets k ms) \<subseteq> dom ?s1"
    unfolding dom1 by (simp add: kind_targets_def)
  from Cons.IH[OF sub] obtain calls s' where
    ih: "apply_list store_client k ms ?s1 = (Inr (), calls, s')"
        "patched calls = kind_targets k ms" "created calls = []" "dom s' = dom ?s1"
    by blast
  have "apply_list store_client k (m # ms) s
          = (Inr (), [ReadCall k (manifest_name m), PatchCall k (manifest_name m)] @ calls, s')"
    using step ih(1) by simp
  moreover have "patched ([ReadCall k (manifest_name m), PatchCall k (manifest_name m)] @ calls)
                   = kind_targets k (m # ms)"
    using ih(2) by (simp add: kind_targets_def)
  moreover have "created ([ReadCall k (manifest_name m), PatchCall k (manifest_name m)] @ calls) = []"
    using ih(3) by simp
  moreover have "dom s' = dom s" using ih(4) dom1 by simp
  ultimately show ?case by blast
qed

lemma apply_resources_absent:
  assumes "\<forall>kv \<in> set b. known_kind (fst kv)" and "distinct (bundle_targets b)"
    and "set (bundle_targets b) \<inter> dom s = {}"
  shows "\<exists>calls s'. apply_resources store_client b s = (Inr (), calls, s')
           \<and> created calls = bundle_targets b \<and> patched calls = []
           \<and> dom s' = dom s \<union> set (bundle_targets b)"
  using assms
proof (induction b arbitrary: s)
  case Nil
  show ?case by (simp add: bundle_targets_def)
next
  case (Cons kv b)
  obtain k ms where kv: "kv = (k, ms)" by (cases kv)
  have bt: "bundle_targets (kv # b) = kind_targets k ms @ bundle_targets b"
    unfolding kv by (simp add: bundle_targets_def)
  from Cons.prems have known: "known_kind k" and knowns: "\<forall>kv \<in> set b. known_kind (fst kv)"
    unfolding kv by simp_all
  from Cons.prems(2) have d1: "distinct (kind_targets k ms)" and d2: "distinct (bundle_targets b)"
    and d12: "set (kind_targets k ms) \<inter> set (bundle_targets b) = {}"
    unfolding bt by simp_all
  from Cons.prems(3) have a1: "set (kind_targets k ms) \<inter> dom s = {}"
    and a2: "set (bundle_targets b) \<inter> dom s = {}"
    unfolding bt by auto
  from apply_list_absent[OF known d1 a1] obtain calls1 s1 where
    l: "apply_list store_client k ms s = (Inr (), calls1, s1)"
       "created calls1 = kind_targets k ms" "patched calls1 = []"
       "dom s1 = dom s \<union> set (kind_targets k ms)"
    by blast
  have a3: "set (bundle_targets b) \<inter> dom s1 = {}"
    unfolding l(4) using a2 d12 by auto
  from Cons.IH[OF knowns d2 a3] obtain calls2 s2 where
    r: "apply_resources store_client b s1 = (Inr (), calls2, s2)"
       "created calls2 = bundle_targets b" "patched calls2 = []"
       "dom s2 = dom s1 \<union> set (bundle_targets b)"
    by blast
  have "apply_resources store_client (kv # b) s = (Inr (), calls1 @ calls2, s2)"
    unfolding kv using l(1) r(1) by simp
  moreover have "created (calls1 @ calls2) = bundle_targets (kv # b)"
    unfolding bt using l(2) r(2) by simp
  moreover have "patched (calls1 @ calls2) = []" using l(3) r(3) by simp
  moreover have "dom s2 = dom s \<union> set (bundle_targets (kv # b))"
    unfolding bt r(4) l(4) by auto
  ultimately show ?case by blast
qed

lemma apply_resources_present:
  assumes "\<forall>kv \<in> set b. known_kind (fst kv)" and "set (bundle_targets b) \<subseteq> dom s"
  shows "\<exists>calls s'. apply_resources store_client b s = (Inr (), calls, s')
           \<and> patched calls = bundle_targets b \<and> created calls = []
           \<and> dom s' = dom s"
  using assms
proof (induction b arbitrary: s)
  case Nil
  show ?case by (simp add: bundle_targets_def)
next
  case (Cons kv b)
  obtain k ms where kv: "kv = (k, ms)" by (cases kv)
  have bt: "bundle_targets (kv # b) = kind_targets k ms @ bundle_targets b"
    unfolding kv by (simp add: bundle_targets_def)
  from Cons.prems have known: "known_kind k" and knowns: "\<forall>kv \<in> set b. known_kind (fst kv)"
    unfolding kv by simp_all
  from Cons.prems(2) have a1: "set (kind_targets k ms) \<subseteq> dom s"
    and a2: "set (bundle_targets b) \<subseteq> dom s"
    unfolding bt by auto
  from apply_list_present[OF known a1] obtain calls1 s1 where
    l: "apply_list store_client k ms s = (Inr (), calls1, s1)"
       "patched calls1 = kind_targets k ms" "created calls1 = []" "dom s1 = dom s"
    by blast
  have a3: "set (bundle_targets b) \<subseteq> dom s1" unfolding l(4) by (rule a2)
  from Cons.IH[OF knowns a3] obtain calls2 s2 where
    r: "apply_resources store_client b s1 = (Inr (), calls2, s2)"
       "patched calls2 = bundle_targets b" "created calls2 = []" "dom s2 = dom s1"
    by blast
  have "apply_resources store_client (kv # b) s = (Inr (), calls1 @ calls2, s2)"
    unfolding kv using l(1) r(1) by simp
  moreover have "patched (calls1 @ calls2) = bundle_targets (kv # b)"
    unfolding bt using l(2) r(2) by simp
  moreover have "created (calls1 @ calls2) = []" using l(3) r(3) by simp
  moreover have "dom s2 = dom s" using r(4) l(4) by simp
  ultimately show ?case by blast
qed

text \<open>
  Claim C2, as the code has it, against a cluster that stores what it is given. Take a
  bundle of the five resource kinds whose manifests have pairwise distinct targets, kind
  and name, none of which exists in the cluster. Applying the bundle succeeds with
  exactly one create call per manifest and no patch call, and leaves a cluster that
  holds those targets besides what it held; applying the same bundle again to that
  cluster succeeds with exactly one patch call per manifest and no create call.
\<close>

theorem apply_resources_round_trip:
  assumes "\<forall>kv \<in> set b. known_kind (fst kv)" and "distinct (bundle_targets b)"
    and "\<forall>t \<in> set (bundle_targets b). s t = None"
  shows "\<exists>calls s' calls2 s''.
           apply_resources store_client b s = (Inr (), calls, s')
         \<and> created calls = bundle_targets b \<and> patched calls = []
         \<and> dom s' = dom s \<union> set (bundle_targets b)
         \<and> apply_resources store_client b s' = (Inr (), calls2, s'')
         \<and> patched calls2 = bundle_targets b \<and> created calls2 = []"
proof -
  from assms(3) have disj: "set (bundle_targets b) \<inter> dom s = {}" by auto
  from apply_resources_absent[OF assms(1,2) disj] obtain calls s' where
    a: "apply_resources store_client b s = (Inr (), calls, s')"
       "created calls = bundle_targets b" "patched calls = []"
       "dom s' = dom s \<union> set (bundle_targets b)"
    by blast
  have sub: "set (bundle_targets b) \<subseteq> dom s'" unfolding a(4) by simp
  from apply_resources_present[OF assms(1) sub] obtain calls2 s'' where
    p: "apply_resources store_client b s' = (Inr (), calls2, s'')"
       "patched calls2 = bundle_targets b" "created calls2 = []"
    by blast
  from a p show ?thesis by blast
qed

lemmas apply_eval =
  apply_resource_def create_resource_def store_client_def known_kind_def bundle_targets_def
  kind_targets_def Let_def

theorem apply_resources_round_trip_witness:
  "bundle_targets pvc_first_bundle = [(''pvcs'', ''data''), (''configmaps'', ''config-settings'')]
   \<and> (\<exists>calls s' calls2 s''.
         apply_resources store_client pvc_first_bundle Map.empty = (Inr (), calls, s')
       \<and> created calls = [(''pvcs'', ''data''), (''configmaps'', ''config-settings'')]
       \<and> patched calls = []
       \<and> apply_resources store_client pvc_first_bundle s' = (Inr (), calls2, s'')
       \<and> patched calls2 = [(''pvcs'', ''data''), (''configmaps'', ''config-settings'')]
       \<and> created calls2 = [])"
proof -
  have t: "bundle_targets pvc_first_bundle
             = [(''pvcs'', ''data''), (''configmaps'', ''config-settings'')]"
    by (simp add: pvc_first_bundle_def bundle_targets_def kind_targets_def data_pvc_def
          settings_configmap_def generate_pvc_def)
  have h1: "\<forall>kv \<in> set pvc_first_bundle. known_kind (fst kv)"
    by (simp add: pvc_first_bundle_def known_kind_def)
  have h2: "distinct (bundle_targets pvc_first_bundle)" unfolding t by simp
  have h3: "\<forall>t \<in> set (bundle_targets pvc_first_bundle). Map.empty t = (None :: manifest option)"
    by simp
  from apply_resources_round_trip [OF h1 h2 h3] obtain calls s' calls2 s'' where
    r: "apply_resources store_client pvc_first_bundle Map.empty = (Inr (), calls, s')"
       "created calls = bundle_targets pvc_first_bundle" "patched calls = []"
       "apply_resources store_client pvc_first_bundle s' = (Inr (), calls2, s'')"
       "patched calls2 = bundle_targets pvc_first_bundle" "created calls2 = []"
    by blast
  show ?thesis
    apply (rule conjI[OF t])
    apply (rule exI[of _ calls], rule exI[of _ s'], rule exI[of _ calls2], rule exI[of _ s''])
    using r unfolding t by simp
qed

lemmas bundle_eval =
  generate_container_volumes_def generate_volumes_def convert_volume_mounts_def
  create_container_def inline_configmap_def deployment_generate_def convert_ports_def
  convert_environment_def List.map_filter_def List.enumerate_eq_zip
  needs_service_def nonempty_def to_bundle_def generate_all_resources_def generate_all_def

text \<open>
  Claim C2, as stated, fails on the bundle generated for two apps and one inline
  config, which holds the ConfigMap \<open>config-settings\<close> twice. Against a cluster that
  holds nothing, the second copy finds the first one created: four manifests, three
  create calls and one patch call.
\<close>

theorem apply_resources_repeated_counterexample:
  "bundle_targets two_apps_bundle
     = [(''configmaps'', ''config-settings''), (''configmaps'', ''config-settings''),
        (''deployments'', ''web''), (''deployments'', ''api'')]
   \<and> fst (apply_resources store_client two_apps_bundle Map.empty) = Inr ()
   \<and> created (fst (snd (apply_resources store_client two_apps_bundle Map.empty)))
     = [(''configmaps'', ''config-settings''), (''deployments'', ''web''), (''deployments'', ''api'')]
   \<and> patched (fst (snd (apply_resources store_client two_apps_bundle Map.empty)))
     = [(''configmaps'', ''config-settings'')]"
  by (simp add: two_apps_bundle_def two_apps_model_def bare_app_def bundle_eval apply_eval)

end
